theory Spec2Isabelle
  imports Main
begin

section \<open>Values\<close>

text \<open>
  A \<^verbatim>\<open>TomlConfig\<close> instance is its attribute dictionary \<^verbatim>\<open>__dict__\<close>: an
  insertion-ordered list of (name, value) pairs with distinct names. A value is one of
  Python's built-in ones (\<^verbatim>\<open>None\<close>, a \<^verbatim>\<open>bool\<close>, an \<^verbatim>\<open>int\<close>, a \<^verbatim>\<open>float\<close>, named
  by its \<^verbatim>\<open>repr\<close>, a \<^verbatim>\<open>str\<close>, a \<^verbatim>\<open>list\<close>, a \<^verbatim>\<open>dict\<close>) or a \<^verbatim>\<open>TomlConfig\<close>
  node. A parsed document is read as the built-in values it stands for: the item
  classes of the TOML codec, dates among them, are not part of this source. Nodes are
  trees here: no node object is bound at two places (what sharing does is treated apart,
  over a store of objects, further down).
\<close>

datatype val =
    VNone
  | VBool bool
  | VInt int
  | VFloat string
  | VStr string
  | VList "val list"
  | VDict "(string \<times> val) list"
  | VNode "(string \<times> val) list"

type_synonym dict = "(string \<times> val) list"

text \<open>
  What an attribute lookup can give: a value, or an object of the interpreter, namely a
  bound method of the class, a method wrapper or a builtin method inherited from
  \<^verbatim>\<open>object\<close>, or the class itself.
\<close>

datatype looked =
    Val val
  | Method string
  | Wrapper string
  | Builtin string
  | TheClass

datatype error =
    KeyError string
  | ValueError
  | AttributeError
  | TypeError
  | CodecError string
  | OSError
  | UnicodeDecodeError
  | Unmodelled

text \<open>
  \<^verbatim>\<open>CodecError\<close> is whatever the TOML or JSON codec raises. \<^verbatim>\<open>Unmodelled\<close> is not an
  exception of the program: it marks the calls that wrote to an object of the interpreter
  (an attribute of a built-in value or of a method, the class object) and the write went
  through, or that were given a file descriptor for a path. What such a write does, to
  the tree and to the rest of the call, is not in this source, and nothing is stated of
  these calls.
\<close>

section \<open>Attribute tables of the interpreter\<close>

text \<open>
  The attribute names CPython 3.11 answers on every object, and the further ones of the
  built-in types, of a bound method (its own and those of its function), of a method
  wrapper and of a builtin method.
\<close>

definition object_names :: "string list" where
  "object_names =
    [''__class__'', ''__delattr__'', ''__dir__'', ''__doc__'', ''__eq__'',
     ''__format__'', ''__ge__'', ''__getattribute__'', ''__getstate__'', ''__gt__'',
     ''__hash__'', ''__init__'', ''__init_subclass__'', ''__le__'', ''__lt__'',
     ''__ne__'', ''__new__'', ''__reduce__'', ''__reduce_ex__'', ''__repr__'',
     ''__setattr__'', ''__sizeof__'', ''__str__'', ''__subclasshook__'']"

definition none_extra :: "string list" where
  "none_extra =
    [''__bool__'']"

definition int_extra :: "string list" where
  "int_extra =
    [''__abs__'', ''__add__'', ''__and__'', ''__bool__'', ''__ceil__'', ''__divmod__'',
     ''__float__'', ''__floor__'', ''__floordiv__'', ''__getnewargs__'', ''__index__'',
     ''__int__'', ''__invert__'', ''__lshift__'', ''__mod__'', ''__mul__'', ''__neg__'',
     ''__or__'', ''__pos__'', ''__pow__'', ''__radd__'', ''__rand__'', ''__rdivmod__'',
     ''__rfloordiv__'', ''__rlshift__'', ''__rmod__'', ''__rmul__'', ''__ror__'',
     ''__round__'', ''__rpow__'', ''__rrshift__'', ''__rshift__'', ''__rsub__'',
     ''__rtruediv__'', ''__rxor__'', ''__sub__'', ''__truediv__'', ''__trunc__'',
     ''__xor__'', ''as_integer_ratio'', ''bit_count'', ''bit_length'', ''conjugate'',
     ''denominator'', ''from_bytes'', ''imag'', ''numerator'', ''real'', ''to_bytes'']"

definition float_extra :: "string list" where
  "float_extra =
    [''__abs__'', ''__add__'', ''__bool__'', ''__ceil__'', ''__divmod__'', ''__float__'',
     ''__floor__'', ''__floordiv__'', ''__getformat__'', ''__getnewargs__'', ''__int__'',
     ''__mod__'', ''__mul__'', ''__neg__'', ''__pos__'', ''__pow__'', ''__radd__'',
     ''__rdivmod__'', ''__rfloordiv__'', ''__rmod__'', ''__rmul__'', ''__round__'',
     ''__rpow__'', ''__rsub__'', ''__rtruediv__'', ''__sub__'', ''__truediv__'',
     ''__trunc__'', ''as_integer_ratio'', ''conjugate'', ''fromhex'', ''hex'', ''imag'',
     ''is_integer'', ''real'']"

definition str_extra :: "string list" where
  "str_extra =
    [''__add__'', ''__contains__'', ''__getitem__'', ''__getnewargs__'', ''__iter__'',
     ''__len__'', ''__mod__'', ''__mul__'', ''__rmod__'', ''__rmul__'', ''capitalize'',
     ''casefold'', ''center'', ''count'', ''encode'', ''endswith'', ''expandtabs'',
     ''find'', ''format'', ''format_map'', ''index'', ''isalnum'', ''isalpha'',
     ''isascii'', ''isdecimal'', ''isdigit'', ''isidentifier'', ''islower'',
     ''isnumeric'', ''isprintable'', ''isspace'', ''istitle'', ''isupper'', ''join'',
     ''ljust'', ''lower'', ''lstrip'', ''maketrans'', ''partition'', ''removeprefix'',
     ''removesuffix'', ''replace'', ''rfind'', ''rindex'', ''rjust'', ''rpartition'',
     ''rsplit'', ''rstrip'', ''split'', ''splitlines'', ''startswith'', ''strip'',
     ''swapcase'', ''title'', ''translate'', ''upper'', ''zfill'']"

definition list_extra :: "string list" where
  "list_extra =
    [''__add__'', ''__class_getitem__'', ''__contains__'', ''__delitem__'',
     ''__getitem__'', ''__iadd__'', ''__imul__'', ''__iter__'', ''__len__'', ''__mul__'',
     ''__reversed__'', ''__rmul__'', ''__setitem__'', ''append'', ''clear'', ''copy'',
     ''count'', ''extend'', ''index'', ''insert'', ''pop'', ''remove'', ''reverse'',
     ''sort'']"

definition dict_extra :: "string list" where
  "dict_extra =
    [''__class_getitem__'', ''__contains__'', ''__delitem__'', ''__getitem__'',
     ''__ior__'', ''__iter__'', ''__len__'', ''__or__'', ''__reversed__'', ''__ror__'',
     ''__setitem__'', ''clear'', ''copy'', ''fromkeys'', ''get'', ''items'', ''keys'',
     ''pop'', ''popitem'', ''setdefault'', ''update'', ''values'']"

definition method_extra :: "string list" where
  "method_extra =
    [''__annotations__'', ''__builtins__'', ''__call__'', ''__closure__'', ''__code__'',
     ''__defaults__'', ''__dict__'', ''__func__'', ''__get__'', ''__globals__'',
     ''__kwdefaults__'', ''__module__'', ''__name__'', ''__qualname__'', ''__self__'']"

definition wrapper_extra :: "string list" where
  "wrapper_extra =
    [''__call__'', ''__name__'', ''__objclass__'', ''__qualname__'', ''__self__'',
     ''__text_signature__'']"

definition builtin_extra :: "string list" where
  "builtin_extra =
    [''__call__'', ''__module__'', ''__name__'', ''__qualname__'', ''__self__'',
     ''__text_signature__'']"

definition is_builtin :: "looked \<Rightarrow> bool" where
  "is_builtin x = (case x of Builtin n \<Rightarrow> True | _ \<Rightarrow> False)"

text \<open>\<open>dir_of x\<close>: the names for which \<^verbatim>\<open>hasattr(x, name)\<close> holds, \<open>x\<close> not a node.\<close>

fun dir_of :: "looked \<Rightarrow> string list" where
  "dir_of (Val VNone) = object_names @ none_extra"
| "dir_of (Val (VBool b)) = object_names @ int_extra"
| "dir_of (Val (VInt i)) = object_names @ int_extra"
| "dir_of (Val (VFloat f)) = object_names @ float_extra"
| "dir_of (Val (VStr s)) = object_names @ str_extra"
| "dir_of (Val (VList xs)) = object_names @ list_extra"
| "dir_of (Val (VDict m)) = object_names @ dict_extra"
| "dir_of (Method n) = object_names @ method_extra"
| "dir_of (Wrapper n) = object_names @ wrapper_extra"
| "dir_of (Builtin n) = object_names @ builtin_extra"
| "dir_of x = []"

text \<open>
  \<^verbatim>\<open>setattr(x, k, _)\<close> and \<^verbatim>\<open>delattr(x, k)\<close> on such an \<open>x\<close> always raise, but for
  the \<^verbatim>\<open>__module__\<close> of a builtin method, which can be written.
\<close>

definition foreign_write :: "looked \<Rightarrow> string \<Rightarrow> error" where
  "foreign_write x k =
     (if k = ''__class__'' then TypeError
      else if is_builtin x \<and> k = ''__module__'' then Unmodelled
      else AttributeError)"

section \<open>Attributes of a node\<close>

definition file_key :: string where
  "file_key = ''__file__''"

text \<open>The names defined in the body of \<^verbatim>\<open>class TomlConfig\<close>.\<close>

definition methods :: "string list" where
  "methods = [''__init__'', ''load'', ''add_item'', ''remove_item'', ''update_item'',
     ''to_dict'', ''save_to_file'', ''add_items'', ''save'', ''get'', ''to_json'',
     ''from_json'']"

text \<open>
  The names inherited from \<^verbatim>\<open>object\<close> that give a method wrapper, and those that give a
  builtin method.
\<close>

definition wrappers :: "string list" where
  "wrappers = [''__delattr__'', ''__eq__'', ''__ge__'', ''__getattribute__'', ''__gt__'',
     ''__hash__'', ''__le__'', ''__lt__'', ''__ne__'', ''__repr__'', ''__setattr__'',
     ''__str__'']"

definition builtins :: "string list" where
  "builtins = [''__dir__'', ''__format__'', ''__getstate__'', ''__init_subclass__'',
     ''__new__'', ''__reduce__'', ''__reduce_ex__'', ''__sizeof__'', ''__subclasshook__'']"

text \<open>The name of the module the class is defined in.\<close>

definition class_module :: string where
  "class_module = ''toml_lib.toml''"

text \<open>
  The three names the type answers before the instance dictionary is looked at (data
  descriptors).
\<close>

definition slots :: "string list" where
  "slots = [''__class__'', ''__dict__'', ''__weakref__'']"

text \<open>
  What the class answers for a name that the instance does not bind: its methods, its
  \<^verbatim>\<open>__doc__\<close> (there is no docstring) and \<^verbatim>\<open>__module__\<close>, and what \<^verbatim>\<open>object\<close> gives.
\<close>

definition class_attr :: "string \<Rightarrow> looked option" where
  "class_attr k =
     (if k \<in> set methods then Some (Method k)
      else if k = ''__doc__'' then Some (Val VNone)
      else if k = ''__module__'' then Some (Val (VStr class_module))
      else if k \<in> set wrappers then Some (Wrapper k)
      else if k \<in> set builtins then Some (Builtin k)
      else None)"

definition keys :: "dict \<Rightarrow> string list" where
  "keys d = map fst d"

text \<open>\<^verbatim>\<open>getattr(node, k)\<close>: the slots, then the instance dictionary, then the class.\<close>

definition getattr :: "dict \<Rightarrow> string \<Rightarrow> error + looked" where
  "getattr d k =
     (if k = ''__class__'' then Inr TheClass
      else if k = ''__dict__'' then Inr (Val (VDict d))
      else if k = ''__weakref__'' then Inr (Val VNone)
      else (case map_of d k of
              Some v \<Rightarrow> Inr (Val v)
            | None \<Rightarrow>
                (case class_attr k of
                   Some x \<Rightarrow> Inr x
                 | None \<Rightarrow> Inl AttributeError)))"

text \<open>\<^verbatim>\<open>hasattr(node, k)\<close>: whether \<^verbatim>\<open>getattr\<close> returns.\<close>

definition hasattr :: "dict \<Rightarrow> string \<Rightarrow> bool" where
  "hasattr d k = (case getattr d k of Inl e \<Rightarrow> False | Inr x \<Rightarrow> True)"

text \<open>Binding in the instance dictionary: rebinding keeps the position, a new name goes last.\<close>

fun rebind :: "dict \<Rightarrow> string \<Rightarrow> val \<Rightarrow> dict" where
  "rebind [] k v = [(k, v)]"
| "rebind ((k', v') # r) k v =
     (if k' = k then (k, v) # r else (k', v') # rebind r k v)"

text \<open>
  \<^verbatim>\<open>setattr(node, k, v)\<close>: \<^verbatim>\<open>__class__\<close> takes a class only, \<^verbatim>\<open>__dict__\<close> a
  dictionary only (which then is the instance dictionary), \<^verbatim>\<open>__weakref__\<close> nothing; any
  other name is bound in the instance dictionary.
\<close>

definition setattr :: "dict \<Rightarrow> string \<Rightarrow> val \<Rightarrow> error + dict" where
  "setattr d k v =
     (if k = ''__class__'' then Inl TypeError
      else if k = ''__dict__'' then (case v of VDict m \<Rightarrow> Inr m | _ \<Rightarrow> Inl TypeError)
      else if k = ''__weakref__'' then Inl AttributeError
      else Inr (rebind d k v))"

text \<open>
  \<^verbatim>\<open>delattr(node, k)\<close>: deleting \<^verbatim>\<open>__dict__\<close> empties the instance dictionary; of
  the other names only one bound in the instance dictionary can be deleted.
\<close>

definition delattr :: "dict \<Rightarrow> string \<Rightarrow> error option \<times> dict" where
  "delattr d k =
     (if k = ''__class__'' then (Some TypeError, d)
      else if k = ''__dict__'' then (None, [])
      else if k = ''__weakref__'' then (Some AttributeError, d)
      else if k \<in> set (keys d) then (None, filter (\<lambda>p. fst p \<noteq> k) d)
      else (Some AttributeError, d))"

text \<open>
  A method call \<^verbatim>\<open>node.name(...)\<close> looks \<open>name\<close> up like any attribute: when the
  instance dictionary binds \<open>name\<close>, the call is a call of the bound value, and neither
  a built-in value nor a node can be called (\<^verbatim>\<open>TypeError\<close>).
\<close>

definition shadows :: "dict \<Rightarrow> string \<Rightarrow> bool" where
  "shadows d name = (name \<in> set (keys d))"

section \<open>Construction and export\<close>

text \<open>
  \<^verbatim>\<open>__init__(self, data, filename)\<close>: one \<^verbatim>\<open>setattr\<close> per item of \<^verbatim>\<open>data\<close>, in
  order, a \<^verbatim>\<open>dict\<close> value first becoming a child built with no filename; then the
  filename, when truthy, is bound to \<^verbatim>\<open>__file__\<close>. \<open>init_items acc items\<close> is the
  loop, \<open>acc\<close> the attributes set so far; a \<^verbatim>\<open>setattr\<close> that raises ends it.
\<close>

fun init_items :: "dict \<Rightarrow> dict \<Rightarrow> error + dict" where
  "init_items acc [] = Inr acc"
| "init_items acc ((k, v) # rest) =
     (case (case v of
              VDict m \<Rightarrow>
                (case init_items [] m of
                   Inl e \<Rightarrow> Inl e
                 | Inr c \<Rightarrow> setattr acc k (VNode c))
            | _ \<Rightarrow> setattr acc k v) of
        Inl e \<Rightarrow> Inl e
      | Inr acc' \<Rightarrow> init_items acc' rest)"

definition construct :: "dict \<Rightarrow> string option \<Rightarrow> error + dict" where
  "construct data filename =
     (case init_items [] data of
        Inl e \<Rightarrow> Inl e
      | Inr d \<Rightarrow>
          (case filename of
             None \<Rightarrow> Inr d
           | Some f \<Rightarrow> if f \<noteq> [] then setattr d file_key (VStr f) else Inr d))"

text \<open>
  \<^verbatim>\<open>to_dict\<close>: \<open>to_dict d\<close> is the call \<^verbatim>\<open>node.to_dict()\<close>, \<open>to_dict_items\<close> the
  loop over \<^verbatim>\<open>self.__dict__.items()\<close>, which calls \<^verbatim>\<open>value.to_dict()\<close> on each child.
  The names of \<^verbatim>\<open>__dict__\<close> are distinct, so each \<^verbatim>\<open>data[key] = ...\<close> adds a new entry
  at the end of the result.
\<close>

fun to_dict :: "dict \<Rightarrow> error + dict"
  and to_dict_items :: "dict \<Rightarrow> error + dict" where
  "to_dict d = (if shadows d ''to_dict'' then Inl TypeError else to_dict_items d)"
| "to_dict_items [] = Inr []"
| "to_dict_items ((k, v) # r) =
     (if k = file_key \<or> v = VNone then to_dict_items r
      else (case v of
              VNode c \<Rightarrow>
                (case to_dict c of
                   Inl e \<Rightarrow> Inl e
                 | Inr x \<Rightarrow>
                     (case to_dict_items r of
                        Inl e \<Rightarrow> Inl e
                      | Inr y \<Rightarrow> Inr ((k, VDict x) # y)))
            | _ \<Rightarrow>
                (case to_dict_items r of
                   Inl e \<Rightarrow> Inl e
                 | Inr y \<Rightarrow> Inr ((k, v) # y))))"

section \<open>Dotted keys\<close>

text \<open>\<^verbatim>\<open>key.split('.')\<close>: never empty, empty segments are kept.\<close>

fun split_dot :: "string \<Rightarrow> string list" where
  "split_dot [] = [[]]"
| "split_dot (c # cs) =
     (if c = CHR ''.'' then [] # split_dot cs
      else (case split_dot cs of
              s # ss \<Rightarrow> (c # s) # ss
            | [] \<Rightarrow> [[c]]))"

text \<open>
  The loops of \<^verbatim>\<open>add_item\<close> and \<^verbatim>\<open>remove_item\<close> can leave the tree: a segment can
  name an attribute of a built-in value, of a method or of the class, and the loop goes
  on from the object that attribute is. What these further objects answer is the
  interpreter's business; it is a parameter here, over any type \<open>'o\<close> of objects:
  \<open>the_class\<close> is the class object, \<open>enter I x k\<close> the object \<^verbatim>\<open>getattr(x, k)\<close> for
  an \<open>x\<close> of the tables above that has \<open>k\<close>, \<open>oattr I ob k\<close> the object
  \<^verbatim>\<open>getattr(ob, k)\<close> if \<^verbatim>\<open>hasattr(ob, k)\<close>, and \<open>oset I ob k v\<close> and
  \<open>odel I ob k\<close> the exception \<^verbatim>\<open>setattr(ob, k, v)\<close> and \<^verbatim>\<open>delattr(ob, k)\<close>
  raise, if they raise. Looking up an attribute changes nothing, and neither does a write
  that raises.
\<close>

record 'o interp =
  the_class :: 'o
  enter :: "looked \<Rightarrow> string \<Rightarrow> 'o"
  oattr :: "'o \<Rightarrow> string \<Rightarrow> 'o option"
  oset :: "'o \<Rightarrow> string \<Rightarrow> val \<Rightarrow> error option"
  odel :: "'o \<Rightarrow> string \<Rightarrow> error option"

text \<open>
  The rest of the loop of \<^verbatim>\<open>add_item\<close> once \<^verbatim>\<open>current_level\<close> is an object \<open>ob\<close> of
  the interpreter, over the remaining segments: a missing name is written at once (a
  fresh node, or the value if it is the last), and so is the last name; on a name that
  \<open>ob\<close> has and that is not the last, the loop goes on from that attribute.
\<close>

fun add_opaque :: "'o interp \<Rightarrow> 'o \<Rightarrow> string list \<Rightarrow> val \<Rightarrow> error" where
  "add_opaque I ob [] v = Unmodelled"
| "add_opaque I ob (k # ks) v =
     (case oattr I ob k of
        None \<Rightarrow>
          (case oset I ob k (if ks = [] then v else VNode []) of
             Some e \<Rightarrow> e
           | None \<Rightarrow> Unmodelled)
      | Some ob' \<Rightarrow>
          (if ks = [] then
             (case oset I ob k v of
                Some e \<Rightarrow> e
              | None \<Rightarrow> Unmodelled)
           else add_opaque I ob' ks v))"

text \<open>
  The same once \<^verbatim>\<open>current_level\<close> is an \<open>x\<close> of the tables above that is not a node:
  a missing name, or the last one, is written at once, and the write raises; on a name
  that \<open>x\<close> has and that is not the last, the loop goes on from that attribute of
  \<open>x\<close>.
\<close>

fun add_foreign :: "'o interp \<Rightarrow> looked \<Rightarrow> string list \<Rightarrow> val \<Rightarrow> error" where
  "add_foreign I x [] v = Unmodelled"
| "add_foreign I x (k # ks) v =
     (if x = TheClass then add_opaque I (the_class I) (k # ks) v
      else if k \<notin> set (dir_of x) \<or> ks = [] then foreign_write x k
      else add_opaque I (enter I x k) ks v)"

text \<open>
  The loop of \<^verbatim>\<open>add_item\<close> from a node with attributes \<open>d\<close> over the remaining
  segments. A mutator returns the outcome (\<open>None\<close>: it returned normally) and the
  attributes of the node after the call, also when it raised. A child that the loop went
  into is the same object afterwards, so what happened to it is written back in place.
\<close>

fun add_walk :: "'o interp \<Rightarrow> dict \<Rightarrow> string list \<Rightarrow> val \<Rightarrow> error option \<times> dict" where
  "add_walk I d [] v = (None, d)"
| "add_walk I d [k] v =
     (case setattr d k v of
        Inl e \<Rightarrow> (Some e, d)
      | Inr d' \<Rightarrow> (None, d'))"
| "add_walk I d (k # k2 # ks) v =
     (if \<not> hasattr d k then
        (case setattr d k (VNode []) of
           Inl e \<Rightarrow> (Some e, d)
         | Inr d' \<Rightarrow>
             (case add_walk I [] (k2 # ks) v of
                (e, c') \<Rightarrow> (e, rebind d' k (VNode c'))))
      else
        (case getattr d k of
           Inr (Val (VNode c)) \<Rightarrow>
             (case add_walk I c (k2 # ks) v of
                (e, c') \<Rightarrow> (e, rebind d k (VNode c')))
         | Inr x \<Rightarrow> (Some (add_foreign I x (k2 # ks) v), d)
         | Inl e \<Rightarrow> (Some e, d)))"

definition add_item :: "'o interp \<Rightarrow> dict \<Rightarrow> string \<Rightarrow> val \<Rightarrow> error option \<times> dict" where
  "add_item I d key v =
     (if shadows d ''add_item'' then (Some TypeError, d)
      else add_walk I d (split_dot key) v)"

text \<open>
  The rest of the loop of \<^verbatim>\<open>remove_item\<close> once \<^verbatim>\<open>current_level\<close> is an object
  \<open>ob\<close> of the interpreter, and once it is an \<open>x\<close> of the tables above that is not a
  node; \<open>key\<close> is the whole dotted key, for the message.
\<close>

fun remove_opaque :: "'o interp \<Rightarrow> 'o \<Rightarrow> string \<Rightarrow> string list \<Rightarrow> error" where
  "remove_opaque I ob key [] = Unmodelled"
| "remove_opaque I ob key (k # ks) =
     (case oattr I ob k of
        None \<Rightarrow> KeyError key
      | Some ob' \<Rightarrow>
          (if ks = [] then
             (case odel I ob k of
                Some e \<Rightarrow> e
              | None \<Rightarrow> Unmodelled)
           else remove_opaque I ob' key ks))"

fun remove_foreign :: "'o interp \<Rightarrow> looked \<Rightarrow> string \<Rightarrow> string list \<Rightarrow> error" where
  "remove_foreign I x key [] = Unmodelled"
| "remove_foreign I x key (k # ks) =
     (if x = TheClass then remove_opaque I (the_class I) key (k # ks)
      else if k \<notin> set (dir_of x) then KeyError key
      else if ks = [] then foreign_write x k
      else remove_opaque I (enter I x k) key ks)"

fun remove_walk :: "'o interp \<Rightarrow> dict \<Rightarrow> string \<Rightarrow> string list \<Rightarrow> error option \<times> dict" where
  "remove_walk I d key [] = (None, d)"
| "remove_walk I d key (k # ks) =
     (if \<not> hasattr d k then (Some (KeyError key), d)
      else if ks = [] then delattr d k
      else
        (case getattr d k of
           Inr (Val (VNode c)) \<Rightarrow>
             (case remove_walk I c key ks of
                (e, c') \<Rightarrow> (e, rebind d k (VNode c')))
         | Inr x \<Rightarrow> (Some (remove_foreign I x key ks), d)
         | Inl e \<Rightarrow> (Some e, d)))"

definition remove_item :: "'o interp \<Rightarrow> dict \<Rightarrow> string \<Rightarrow> error option \<times> dict" where
  "remove_item I d key =
     (if shadows d ''remove_item'' then (Some TypeError, d)
      else remove_walk I d key (split_dot key))"

definition update_item :: "dict \<Rightarrow> string \<Rightarrow> val \<Rightarrow> error option \<times> dict" where
  "update_item d key v =
     (if shadows d ''update_item'' then (Some TypeError, d)
      else if hasattr d key then
        (case setattr d key v of
           Inl e \<Rightarrow> (Some e, d)
         | Inr d' \<Rightarrow> (None, d'))
      else (Some (KeyError key), d))"

text \<open>\<^verbatim>\<open>get\<close>: a node is answered by its \<^verbatim>\<open>__dict__\<close>, whose values stay as stored.\<close>

definition get :: "dict \<Rightarrow> string \<Rightarrow> error + looked" where
  "get d key =
     (if shadows d ''get'' then Inl TypeError
      else if hasattr d key then
        (case getattr d key of
           Inr (Val (VNode c)) \<Rightarrow> Inr (Val (VDict c))
         | r \<Rightarrow> r)
      else Inl (KeyError key))"

text \<open>
  Reading \<^verbatim>\<open>node.k1.k2...\<close> by attribute access, as far as the path stays with nodes:
  \<open>None\<close> when a segment is not an attribute, or is asked of something that is not a
  node.
\<close>

fun attr_chain :: "looked \<Rightarrow> string list \<Rightarrow> looked option" where
  "attr_chain x [] = Some x"
| "attr_chain (Val (VNode d)) (k # ks) =
     (case getattr d k of
        Inl e \<Rightarrow> None
      | Inr y \<Rightarrow> attr_chain y ks)"
| "attr_chain x (k # ks) = None"

section \<open>Files and codecs\<close>

text \<open>
  The file system: the text stored at each path, the paths the operating system lets be
  opened for writing or appending (creating the file when there is none), the paths
  where an existing file can be opened for reading, and the paths of the files whose
  bytes are not text in the encoding, so that reading them raises. The codecs are
  external:
  \<open>loads\<close> and \<open>dumps\<close> stand for \<^verbatim>\<open>tomlkit.loads\<close> and \<^verbatim>\<open>tomlkit.dumps\<close>,
  \<open>jdumps\<close> for \<^verbatim>\<open>json.dumps(_, indent=4)\<close>, \<open>jload\<close> for \<^verbatim>\<open>json.load\<close> on the
  text of the file; each may raise.
\<close>

record filesystem =
  contents :: "string \<rightharpoonup> string"
  writable :: "string set"
  readable :: "string set"
  undecodable :: "string set"

text \<open>\<^verbatim>\<open>open(filename, "a")\<close>, closed at once: the file is there afterwards.\<close>

definition open_append :: "filesystem \<Rightarrow> string \<Rightarrow> error + filesystem" where
  "open_append fs p =
     (if p = [] \<or> p \<notin> writable fs then Inl OSError
      else (case contents fs p of
              None \<Rightarrow>
                Inr (fs\<lparr>contents := (contents fs)(p \<mapsto> []),
                         undecodable := undecodable fs - {p}\<rparr>)
            | Some t \<Rightarrow> Inr fs))"

text \<open>\<^verbatim>\<open>open(filename, "r")\<close> and \<^verbatim>\<open>file.read()\<close>.\<close>

definition read_text :: "filesystem \<Rightarrow> string \<Rightarrow> error + string" where
  "read_text fs p =
     (if p = [] \<or> p \<notin> readable fs then Inl OSError
      else (case contents fs p of
              None \<Rightarrow> Inl OSError
            | Some t \<Rightarrow> if p \<in> undecodable fs then Inl UnicodeDecodeError else Inr t))"

definition load ::
  "(string \<Rightarrow> error + dict) \<Rightarrow> filesystem \<Rightarrow> string \<Rightarrow> (error + dict) \<times> filesystem" where
  "load loads fs filename =
     (case open_append fs filename of
        Inl e \<Rightarrow> (Inl e, fs)
      | Inr fs' \<Rightarrow>
          (case read_text fs' filename of
             Inl e \<Rightarrow> (Inl e, fs')
           | Inr text \<Rightarrow>
               (case loads text of
                  Inl e \<Rightarrow> (Inl e, fs')
                | Inr data \<Rightarrow> (construct data (Some filename), fs'))))"

text \<open>
  \<^verbatim>\<open>save_to_file\<close>: the export first; then \<^verbatim>\<open>open(filename, "w")\<close> empties the file
  before \<^verbatim>\<open>tomlkit.dumps\<close> runs, so a failing \<^verbatim>\<open>dumps\<close> leaves it empty. A
  \<^verbatim>\<open>filename\<close> that is a number is taken by \<^verbatim>\<open>open\<close> for a file descriptor.
\<close>

definition save_to_file ::
  "(dict \<Rightarrow> error + string) \<Rightarrow> dict \<Rightarrow> val \<Rightarrow> filesystem \<Rightarrow> error option \<times> filesystem" where
  "save_to_file dumps d filename fs =
     (if shadows d ''save_to_file'' then (Some TypeError, fs)
      else (case to_dict d of
              Inl e \<Rightarrow> (Some e, fs)
            | Inr data \<Rightarrow>
                (case filename of
                   VStr p \<Rightarrow>
                     if p = [] \<or> p \<notin> writable fs then (Some OSError, fs)
                     else (case dumps data of
                             Inl e \<Rightarrow>
                               (Some e, fs\<lparr>contents := (contents fs)(p \<mapsto> []),
                                            undecodable := undecodable fs - {p}\<rparr>)
                           | Inr text \<Rightarrow>
                               (None, fs\<lparr>contents := (contents fs)(p \<mapsto> text),
                                          undecodable := undecodable fs - {p}\<rparr>))
                 | VInt i \<Rightarrow> (Some Unmodelled, fs)
                 | VBool b \<Rightarrow> (Some Unmodelled, fs)
                 | _ \<Rightarrow> (Some TypeError, fs))))"

text \<open>
  \<^verbatim>\<open>save\<close> reads \<^verbatim>\<open>self.__file__\<close> before it tests it: on a node without the
  attribute the read itself raises.
\<close>

definition save ::
  "(dict \<Rightarrow> error + string) \<Rightarrow> dict \<Rightarrow> filesystem \<Rightarrow> error option \<times> filesystem" where
  "save dumps d fs =
     (if shadows d ''save'' then (Some TypeError, fs)
      else (case getattr d file_key of
              Inl e \<Rightarrow> (Some e, fs)
            | Inr (Val VNone) \<Rightarrow> (Some ValueError, fs)
            | Inr (Val v) \<Rightarrow> save_to_file dumps d v fs
            | Inr x \<Rightarrow> (Some Unmodelled, fs)))"



section \<open>Node objects in a store\<close>












section \<open>Reading aids\<close>

definition is_node :: "val \<Rightarrow> bool" where
  "is_node v = (case v of VNode c \<Rightarrow> True | _ \<Rightarrow> False)"

text \<open>
  A plain nested mapping: distinct string keys at every table, and no node anywhere
  inside, lists included.
\<close>

fun plain_val :: "val \<Rightarrow> bool" where
  "plain_val (VList xs) = (\<forall>x \<in> set xs. plain_val x)"
| "plain_val (VDict m) = (distinct (map fst m) \<and> (\<forall>x \<in> set (map snd m). plain_val x))"
| "plain_val (VNode c) = False"
| "plain_val v = True"

definition plain_mapping :: "dict \<Rightarrow> bool" where
  "plain_mapping m = plain_val (VDict m)"

text \<open>
  The tables of a mapping that construction turns into nodes are the mapping itself and
  each mapping bound directly under a key of such a table (not one inside a list).
  \<open>node_tables ok m\<close>: every entry of every such table satisfies \<open>ok\<close>.
\<close>

fun node_tables :: "(string \<Rightarrow> val \<Rightarrow> bool) \<Rightarrow> dict \<Rightarrow> bool" where
  "node_tables ok [] = True"
| "node_tables ok ((k, v) # r) =
     (ok k v \<and> (case v of VDict m \<Rightarrow> node_tables ok m | _ \<Rightarrow> True) \<and> node_tables ok r)"

text \<open>The node tree that stands for a mapping.\<close>

fun node_of :: "dict \<Rightarrow> dict" where
  "node_of [] = []"
| "node_of ((k, v) # r) = (k, case v of VDict m \<Rightarrow> VNode (node_of m) | _ \<Rightarrow> v) # node_of r"

text \<open>\<open>settable k v\<close>: \<^verbatim>\<open>setattr(node, k, v)\<close> returns.\<close>

definition settable :: "string \<Rightarrow> val \<Rightarrow> bool" where
  "settable k v = (case setattr [] k v of Inl e \<Rightarrow> False | Inr d \<Rightarrow> True)"

text \<open>
  For \<^verbatim>\<open>add_item\<close>. \<open>vivifiable d ks\<close>: along the walk, a segment before the last
  either leads to a node or is answered by nothing (not by the node, not by its class).
  \<open>bind_path d ks v\<close>: the tree with \<open>v\<close> bound at the end of the path, nodes on the
  way kept and missing ones started empty.
\<close>

fun vivifiable :: "dict \<Rightarrow> string list \<Rightarrow> bool" where
  "vivifiable d [] = True"
| "vivifiable d [k] = True"
| "vivifiable d (k # k2 # ks) =
     (case getattr d k of
        Inl e \<Rightarrow> vivifiable [] (k2 # ks)
      | Inr (Val (VNode c)) \<Rightarrow> vivifiable c (k2 # ks)
      | Inr x \<Rightarrow> False)"

fun bind_path :: "dict \<Rightarrow> string list \<Rightarrow> val \<Rightarrow> dict" where
  "bind_path d [] v = d"
| "bind_path d [k] v = (case setattr d k v of Inl e \<Rightarrow> d | Inr d' \<Rightarrow> d')"
| "bind_path d (k # k2 # ks) v =
     rebind d k
       (VNode (bind_path (case getattr d k of Inr (Val (VNode c)) \<Rightarrow> c | _ \<Rightarrow> []) (k2 # ks) v))"

text \<open>
  For \<^verbatim>\<open>remove_item\<close>. \<open>missing I d ks\<close>: the walk comes to a segment that is
  answered by nothing: on a node, not by the node nor by its class; on a value that is
  not a node or on an object of the interpreter, not by it. \<open>held d ks\<close>: every
  segment is an attribute of its own of the node the segment before leads to (bound in
  its instance dictionary, and not one of the slots). \<open>unbind d ks\<close>: the tree with the
  last segment removed from the node that holds it.
\<close>

fun missing_opaque :: "'o interp \<Rightarrow> 'o \<Rightarrow> string list \<Rightarrow> bool" where
  "missing_opaque I ob [] = False"
| "missing_opaque I ob (k # ks) =
     (case oattr I ob k of
        None \<Rightarrow> True
      | Some ob' \<Rightarrow> missing_opaque I ob' ks)"

fun missing_foreign :: "'o interp \<Rightarrow> looked \<Rightarrow> string list \<Rightarrow> bool" where
  "missing_foreign I x [] = False"
| "missing_foreign I x (k # ks) =
     (if x = TheClass then missing_opaque I (the_class I) (k # ks)
      else if k \<notin> set (dir_of x) then True
      else missing_opaque I (enter I x k) ks)"

fun missing :: "'o interp \<Rightarrow> dict \<Rightarrow> string list \<Rightarrow> bool" where
  "missing I d [] = False"
| "missing I d (k # ks) =
     (case getattr d k of
        Inl e \<Rightarrow> True
      | Inr (Val (VNode c)) \<Rightarrow> missing I c ks
      | Inr x \<Rightarrow> missing_foreign I x ks)"

text \<open>
  An interpreter for examples: the objects beyond the tables answer no name and take no
  write.
\<close>

definition bare :: "unit interp" where
  "bare = \<lparr>the_class = (), enter = (\<lambda>x k. ()), oattr = (\<lambda>ob k. None),
            oset = (\<lambda>ob k v. Some AttributeError), odel = (\<lambda>ob k. Some AttributeError)\<rparr>"

fun held :: "dict \<Rightarrow> string list \<Rightarrow> bool" where
  "held d [] = True"
| "held d [k] = (k \<in> set (keys d) \<and> k \<notin> set slots)"
| "held d (k # k2 # ks) =
     (k \<notin> set slots
      \<and> (case map_of d k of
            Some (VNode c) \<Rightarrow> held c (k2 # ks)
          | _ \<Rightarrow> False))"

fun unbind :: "dict \<Rightarrow> string list \<Rightarrow> dict" where
  "unbind d [] = d"
| "unbind d [k] = filter (\<lambda>p. fst p \<noteq> k) d"
| "unbind d (k # k2 # ks) =
     (case map_of d k of
        Some (VNode c) \<Rightarrow> rebind d k (VNode (unbind c (k2 # ks)))
      | _ \<Rightarrow> d)"





text \<open>
  For the round trip: no table that becomes a node has the key \<^verbatim>\<open>__file__\<close>, the key
  \<^verbatim>\<open>to_dict\<close> or one of the slots, or binds \<^verbatim>\<open>None\<close>.
\<close>

definition kept_whole :: "dict \<Rightarrow> bool" where
  "kept_whole m =
     node_tables (\<lambda>k v. k \<noteq> file_key \<and> k \<noteq> ''to_dict'' \<and> k \<notin> set slots \<and> v \<noteq> VNone) m"


definition settable_tables :: "dict \<Rightarrow> bool" where
  "settable_tables m = node_tables (\<lambda>k v. k \<notin> set slots) m"

declare to_dict.simps(1) [simp del]

section \<open>Attribute dictionaries: basic facts\<close>

lemma keys_rebind_list:
  "keys (rebind d k v) = (if k \<in> set (keys d) then keys d else keys d @ [k])"
  by (induction d) (force simp: keys_def)+

lemma keys_rebind: "set (keys (rebind d k v)) = insert k (set (keys d))"
  by (auto simp: keys_rebind_list)

lemma rebind_fresh: "k \<notin> set (keys d) \<Longrightarrow> rebind d k v = d @ [(k, v)]"
  by (induction d) (auto simp: keys_def)

lemma map_of_rebind: "map_of (rebind d k v) = (map_of d)(k \<mapsto> v)"
  by (induction d) auto

lemma map_of_keys: "(map_of d k = None) = (k \<notin> set (keys d))"
  by (simp add: keys_def map_of_eq_None_iff)

lemma map_of_node_keys: "map_of d k = Some v \<Longrightarrow> k \<in> set (keys d)"
  using map_of_keys[of d k] by auto

lemma rebind_same: "map_of d k = Some v \<Longrightarrow> rebind d k v = d"
  by (induction d) (auto split: if_splits)

lemma setattr_plain: "k \<notin> set slots \<Longrightarrow> setattr d k v = Inr (rebind d k v)"
  by (simp add: setattr_def slots_def)

lemma settable_plain: "k \<notin> set slots \<Longrightarrow> settable k v"
  by (simp add: settable_def setattr_plain)

lemma getattr_bound:
  "k \<notin> set slots \<Longrightarrow> map_of d k = Some v \<Longrightarrow> getattr d k = Inr (Val v)"
  by (simp add: getattr_def slots_def)

lemma getattr_unbound:
  "k \<notin> set slots \<Longrightarrow> map_of d k = None \<Longrightarrow>
   getattr d k = (case class_attr k of Some x \<Rightarrow> Inr x | None \<Rightarrow> Inl AttributeError)"
  by (simp add: getattr_def slots_def)

lemma class_attr_not_node: "class_attr k \<noteq> Some (Val (VNode c))"
  by (simp add: class_attr_def)

lemma getattr_node:
  "getattr d k = Inr (Val (VNode c)) \<Longrightarrow> k \<notin> set slots \<and> map_of d k = Some (VNode c)"
  by (auto simp: getattr_def slots_def class_attr_not_node split: if_splits option.splits)

lemma getattr_none:
  "getattr d k = Inl e \<Longrightarrow> k \<notin> set slots \<and> map_of d k = None \<and> class_attr k = None"
  by (auto simp: getattr_def slots_def split: if_splits option.splits)

lemma hasattr_iff:
  "hasattr d k = (k \<in> set slots \<or> k \<in> set (keys d) \<or> class_attr k \<noteq> None)"
  by (auto simp: hasattr_def getattr_def slots_def map_of_keys[symmetric]
      dest: map_of_node_keys split: option.splits)

lemma hasattr_getattr: "hasattr d k = (\<forall>e. getattr d k \<noteq> Inl e)"
  by (cases "getattr d k") (simp_all add: hasattr_def)

lemma split_dot_nonempty: "split_dot s \<noteq> []"
  by (induction s) (auto split: list.splits)


section \<open>Round trip of construction and export\<close>

lemma keys_node_of: "keys (node_of m) = keys m"
  by (induction m rule: node_of.induct) (simp_all add: keys_def)

lemma plain_val_Cons:
  "plain_val (VDict ((k, v) # rest)) \<Longrightarrow> plain_val v \<and> plain_val (VDict rest)"
  by simp

lemma init_items_node_of:
  "plain_val (VDict items) \<Longrightarrow> set (keys items) \<inter> set (keys acc) = {} \<Longrightarrow>
   node_tables (\<lambda>k v. k \<notin> set slots) items \<Longrightarrow>
   init_items acc items = Inr (acc @ node_of items)"
proof (induction acc items rule: init_items.induct)
  case (1 acc)
  then show ?case by simp
next
  case (2 acc k v rest)
  from "2.prems"(1) have pv: "plain_val v" and pr: "plain_val (VDict rest)"
    and nk: "k \<notin> set (keys rest)"
    by (auto simp: keys_def)
  from "2.prems"(2) have fresh: "k \<notin> set (keys acc)"
    and dis: "set (keys rest) \<inter> set (keys acc) = {}"
    by (auto simp: keys_def)
  from "2.prems"(3) have ks: "k \<notin> set slots"
    and nr: "node_tables (\<lambda>k v. k \<notin> set slots) rest"
    by simp_all
  let ?b = "case v of VDict m \<Rightarrow> VNode (node_of m) | _ \<Rightarrow> v"
  have step: "(case v of
              VDict m \<Rightarrow>
                (case init_items [] m of
                   Inl e \<Rightarrow> Inl e
                 | Inr c \<Rightarrow> setattr acc k (VNode c))
            | _ \<Rightarrow> setattr acc k v) = Inr (acc @ [(k, ?b)])"
  proof (cases v)
    case (VDict m)
    from pv VDict have pm: "plain_val (VDict m)" by simp
    from "2.prems"(3) VDict have nm: "node_tables (\<lambda>k v. k \<notin> set slots) m" by simp
    have "init_items [] m = Inr ([] @ node_of m)"
      using "2.IH"(1)[OF VDict pm _ nm] by (simp add: keys_def)
    then show ?thesis using VDict ks fresh by (simp add: setattr_plain rebind_fresh)
  qed (use ks fresh in \<open>simp_all add: setattr_plain rebind_fresh\<close>)
  have "set (keys rest) \<inter> set (keys (acc @ [(k, ?b)])) = {}"
    using nk dis by (auto simp: keys_def)
  from "2.IH"(2)[OF step pr this nr] step show ?case by simp
qed

lemma construct_node_of:
  "plain_mapping M \<Longrightarrow> node_tables (\<lambda>k v. k \<notin> set slots) M \<Longrightarrow>
   construct M None = Inr (node_of M)"
  using init_items_node_of[of M "[]"]
  by (simp add: construct_def plain_mapping_def keys_def)


lemma node_tables_mono:
  "node_tables P m \<Longrightarrow> (\<And>k v. P k v \<Longrightarrow> Q k v) \<Longrightarrow> node_tables Q m"
  by (induction P m rule: node_tables.induct) (auto split: val.splits)

lemma kept_whole_settable: "kept_whole m \<Longrightarrow> node_tables (\<lambda>k v. k \<notin> set slots) m"
  unfolding kept_whole_def by (erule node_tables_mono) simp

lemma kept_whole_keys: "kept_whole m \<Longrightarrow> ''to_dict'' \<notin> set (keys m)"
  unfolding kept_whole_def
  by (induction "\<lambda>k (v::val). k \<noteq> file_key \<and> k \<noteq> ''to_dict'' \<and> k \<notin> set slots \<and> v \<noteq> VNone" m
      rule: node_tables.induct) (auto simp: keys_def)

lemma to_dict_items_node_of:
  "plain_val (VDict m) \<Longrightarrow> kept_whole m \<Longrightarrow> to_dict_items (node_of m) = Inr m"
proof (induction m rule: node_of.induct)
  case 1
  then show ?case by simp
next
  case (2 k v r)
  from "2.prems" have kw: "k \<noteq> file_key" "v \<noteq> VNone" and kr: "kept_whole r"
    by (simp_all add: kept_whole_def)
  from "2.prems"(1) have pr: "plain_val (VDict r)" and pv: "plain_val v"
    using plain_val_Cons by blast+
  have r: "to_dict_items (node_of r) = Inr r"
    using "2.IH"(2)[OF pr kr] .
  show ?case
  proof (cases v)
    case (VDict m')
    from pv VDict have pm: "plain_val (VDict m')" by simp
    from "2.prems"(2) VDict have km: "kept_whole m'" by (simp add: kept_whole_def)
    have "\<not> shadows (node_of m') ''to_dict''"
      using kept_whole_keys[OF km] by (simp add: shadows_def keys_node_of)
    moreover have "to_dict_items (node_of m') = Inr m'"
      using "2.IH"(1)[OF VDict pm km] .
    ultimately show ?thesis using kw r VDict by (simp add: to_dict.simps(1))
  next
    case (VNode c)
    with pv show ?thesis by simp
  qed (use kw r in simp_all)
qed

text \<open>
  C1, as the code has it: for a plain nested mapping in which no table that becomes a node
  has the key \<^verbatim>\<open>__file__\<close>, the key \<^verbatim>\<open>to_dict\<close> or one of \<^verbatim>\<open>__class__\<close>,
  \<^verbatim>\<open>__dict__\<close>, \<^verbatim>\<open>__weakref__\<close>, or binds \<^verbatim>\<open>None\<close>, construction with no filename
  returns the node tree of the mapping, and \<^verbatim>\<open>to_dict\<close> on it gives the mapping back,
  entry for entry and in the same order.
\<close>

theorem construct_to_dict_roundtrip:
  "plain_mapping M \<Longrightarrow> kept_whole M \<Longrightarrow>
   construct M None = Inr (node_of M) \<and> to_dict (node_of M) = Inr M"
proof -
  assume p: "plain_mapping M" and k: "kept_whole M"
  have c: "construct M None = Inr (node_of M)"
    using p kept_whole_settable[OF k] by (rule construct_node_of)
  have "\<not> shadows (node_of M) ''to_dict''"
    using kept_whole_keys[OF k] by (simp add: shadows_def keys_node_of)
  moreover have "to_dict_items (node_of M) = Inr M"
    using p k by (simp add: plain_mapping_def to_dict_items_node_of)
  ultimately show ?thesis using c by (simp add: to_dict.simps(1))
qed

theorem construct_to_dict_roundtrip_witness:
  "plain_mapping [(''a'', VDict [(''b'', VInt 1)]), (''c'', VList [VNone, VFloat ''1.5'', VDict [(''__file__'', VInt 2)]])]
   \<and> kept_whole [(''a'', VDict [(''b'', VInt 1)]), (''c'', VList [VNone, VFloat ''1.5'', VDict [(''__file__'', VInt 2)]])]
   \<and> construct [(''a'', VDict [(''b'', VInt 1)]), (''c'', VList [VNone, VFloat ''1.5'', VDict [(''__file__'', VInt 2)]])] None
       = Inr [(''a'', VNode [(''b'', VInt 1)]), (''c'', VList [VNone, VFloat ''1.5'', VDict [(''__file__'', VInt 2)]])]
   \<and> to_dict [(''a'', VNode [(''b'', VInt 1)]), (''c'', VList [VNone, VFloat ''1.5'', VDict [(''__file__'', VInt 2)]])]
       = Inr [(''a'', VDict [(''b'', VInt 1)]), (''c'', VList [VNone, VFloat ''1.5'', VDict [(''__file__'', VInt 2)]])]"
proof -
  let ?M = "[(''a'', VDict [(''b'', VInt 1)]), (''c'', VList [VNone, VFloat ''1.5'', VDict [(''__file__'', VInt 2)]])]"
  have p: "plain_mapping ?M"
    by (simp add: plain_mapping_def)
  have k: "kept_whole ?M"
    by (simp add: kept_whole_def file_key_def slots_def)
  from construct_to_dict_roundtrip[OF p k] p k show ?thesis by simp
qed

text \<open>
  C1 as stated fails at each of these plain mappings. The export of the node built from
  \<^verbatim>\<open>{'__file__': 'x'}\<close> is empty, and so is that of the node built from
  \<^verbatim>\<open>{'a': None}\<close>. On the node built from \<^verbatim>\<open>{'to_dict': 1}\<close> the call \<^verbatim>\<open>to_dict()\<close>
  is a call of the number 1. And \<^verbatim>\<open>{'__class__': 1}\<close>, \<^verbatim>\<open>{'__dict__': {}}\<close> and
  \<^verbatim>\<open>{'__weakref__': 1}\<close> build no node: the \<^verbatim>\<open>setattr\<close> of the constructor raises.
\<close>

theorem roundtrip_file_key_counterexample:
  "plain_mapping [(''__file__'', VStr ''x'')]
   \<and> construct [(''__file__'', VStr ''x'')] None = Inr [(''__file__'', VStr ''x'')]
   \<and> to_dict [(''__file__'', VStr ''x'')] = Inr []
   \<and> plain_mapping [(''a'', VNone)]
   \<and> construct [(''a'', VNone)] None = Inr [(''a'', VNone)]
   \<and> to_dict [(''a'', VNone)] = Inr []
   \<and> plain_mapping [(''to_dict'', VInt 1)]
   \<and> construct [(''to_dict'', VInt 1)] None = Inr [(''to_dict'', VInt 1)]
   \<and> to_dict [(''to_dict'', VInt 1)] = Inl TypeError
   \<and> plain_mapping [(''__class__'', VInt 1)]
   \<and> construct [(''__class__'', VInt 1)] None = Inl TypeError
   \<and> plain_mapping [(''__dict__'', VDict [])]
   \<and> construct [(''__dict__'', VDict [])] None = Inl TypeError
   \<and> plain_mapping [(''__weakref__'', VInt 1)]
   \<and> construct [(''__weakref__'', VInt 1)] None = Inl AttributeError"
  by (simp add: plain_mapping_def construct_def setattr_def file_key_def shadows_def keys_def
      to_dict.simps(1))

section \<open>Saving without an origin\<close>

text \<open>
  C2, the code at a node built with no filename: \<^verbatim>\<open>TomlConfig({}).save()\<close> raises
  \<^verbatim>\<open>AttributeError\<close> at the read of \<^verbatim>\<open>self.__file__\<close>, not the \<^verbatim>\<open>ValueError\<close> of
  the next line, and writes nothing.
\<close>

theorem save_without_origin_attribute_error:
  "construct [] None = Inr [] \<and> save dumps [] files = (Some AttributeError, files)"
  by (simp add: save_def construct_def shadows_def keys_def getattr_def file_key_def
      class_attr_def methods_def wrappers_def builtins_def)

section \<open>Single-level operations\<close>

lemma get_bound_value:
  "getattr p k = Inr (Val v) \<Longrightarrow> \<not> is_node v \<Longrightarrow> \<not> shadows p ''get'' \<Longrightarrow>
   get p k = Inr (Val v)"
  by (cases v) (simp_all add: get_def hasattr_def is_node_def)







text \<open>
  C6, as the code has it. On a node that does not bind the name \<^verbatim>\<open>update_item\<close>
  itself and for a key \<open>k\<close> that is not one of the slots, \<^verbatim>\<open>update_item(k, v)\<close> takes
  \<open>k\<close> whole: when \<open>k\<close> is bound on the node it rebinds \<open>k\<close> to \<open>v\<close>, leaves every
  other binding alone and creates no key; when neither the node nor its class answers
  \<open>k\<close> it raises \<^verbatim>\<open>KeyError\<close> carrying \<open>k\<close> and the node is as before.
\<close>

theorem update_item_single_level:
  "\<not> shadows d ''update_item'' \<Longrightarrow> k \<notin> set slots \<Longrightarrow>
   (k \<in> set (keys d) \<longrightarrow>
      update_item d k v = (None, rebind d k v)
      \<and> map_of (rebind d k v) = (map_of d)(k \<mapsto> v)
      \<and> keys (rebind d k v) = keys d)
   \<and> (k \<notin> set (keys d) \<and> class_attr k = None \<longrightarrow>
        update_item d k v = (Some (KeyError k), d))"
  by (simp add: update_item_def hasattr_iff setattr_plain map_of_rebind keys_rebind_list)

theorem update_item_single_level_witness:
  "\<not> shadows [(''a'', VNode [(''b'', VInt 1)]), (''load'', VInt 0)] ''update_item''
   \<and> ''a.b'' \<notin> set slots \<and> ''a'' \<notin> set slots \<and> ''load'' \<notin> set slots
   \<and> ''a.b'' \<notin> set (keys [(''a'', VNode [(''b'', VInt 1)]), (''load'', VInt 0)])
   \<and> class_attr ''a.b'' = None
   \<and> update_item [(''a'', VNode [(''b'', VInt 1)]), (''load'', VInt 0)] ''a.b'' (VInt 2)
       = (Some (KeyError ''a.b''), [(''a'', VNode [(''b'', VInt 1)]), (''load'', VInt 0)])
   \<and> ''a'' \<in> set (keys [(''a'', VNode [(''b'', VInt 1)]), (''load'', VInt 0)])
   \<and> update_item [(''a'', VNode [(''b'', VInt 1)]), (''load'', VInt 0)] ''a'' (VInt 2)
       = (None, [(''a'', VInt 2), (''load'', VInt 0)])
   \<and> ''load'' \<in> set (keys [(''a'', VNode [(''b'', VInt 1)]), (''load'', VInt 0)])
   \<and> update_item [(''a'', VNode [(''b'', VInt 1)]), (''load'', VInt 0)] ''load'' (VInt 2)
       = (None, [(''a'', VNode [(''b'', VInt 1)]), (''load'', VInt 2)])"
proof -
  let ?d = "[(''a'', VNode [(''b'', VInt 1)]), (''load'', VInt 0)]"
  have s: "\<not> shadows ?d ''update_item''"
    by (simp add: shadows_def keys_def)
  have k: "''a.b'' \<notin> set slots" "''a'' \<notin> set slots" "''load'' \<notin> set slots"
    by (simp_all add: slots_def)
  have c: "class_attr ''a.b'' = None"
    by (simp add: class_attr_def methods_def wrappers_def builtins_def)
  from update_item_single_level[OF s k(1), of "VInt 2"]
    update_item_single_level[OF s k(2), of "VInt 2"]
    update_item_single_level[OF s k(3), of "VInt 2"] s k c
  show ?thesis by (simp add: keys_def)
qed

text \<open>
  C6 as stated fails at each of these inputs. Neither \<^verbatim>\<open>get\<close> nor \<^verbatim>\<open>__doc__\<close> is bound
  on the empty node, and \<^verbatim>\<open>update_item\<close> returns normally and creates the key. The key
  \<^verbatim>\<open>__class__\<close> is not bound either, and the failure is the \<^verbatim>\<open>TypeError\<close> of
  \<^verbatim>\<open>setattr\<close>; it is the same on a node whose dictionary binds \<^verbatim>\<open>__class__\<close>. And on a node that binds \<^verbatim>\<open>update_item\<close> to the number 1,
  \<^verbatim>\<open>update_item('update_item', 2)\<close> is a call of that number and rebinds nothing.
\<close>

theorem update_item_method_name_counterexample:
  "''get'' \<notin> set (keys [])
   \<and> update_item [] ''get'' (VInt 1) = (None, [(''get'', VInt 1)])
   \<and> update_item [] ''__doc__'' (VInt 1) = (None, [(''__doc__'', VInt 1)])
   \<and> update_item [] ''__class__'' (VInt 1) = (Some TypeError, [])
   \<and> update_item [(''__class__'', VInt 1)] ''__class__'' (VInt 2)
       = (Some TypeError, [(''__class__'', VInt 1)])
   \<and> ''update_item'' \<in> set (keys [(''update_item'', VInt 1)])
   \<and> update_item [(''update_item'', VInt 1)] ''update_item'' (VInt 2)
       = (Some TypeError, [(''update_item'', VInt 1)])"
  by (simp add: update_item_def shadows_def hasattr_def getattr_def setattr_def class_attr_def
      methods_def keys_def)

section \<open>Removing a dotted key\<close>

lemma remove_walk_failure_unchanged:
  "fst (remove_walk I d key ks) \<noteq> None \<Longrightarrow> snd (remove_walk I d key ks) = d"
proof (induction I d key ks rule: remove_walk.induct)
  case (1 I d key)
  then show ?case by simp
next
  case (2 I d key k ks)
  show ?case
  proof (cases "\<not> hasattr d k \<or> ks = []")
    case True
    with "2.prems" show ?thesis by (auto simp: delattr_def split: if_splits)
  next
    case False
    then have h: "hasattr d k" "ks \<noteq> []" by auto
    show ?thesis
    proof (cases "getattr d k")
      case (Inl e)
      with h show ?thesis by simp
    next
      case (Inr y)
      show ?thesis
      proof (cases "\<exists>c. y = Val (VNode c)")
        case True
        then obtain c where y: "y = Val (VNode c)" by blast
        obtain e c' where r: "remove_walk I c key ks = (e, c')" by (cases "remove_walk I c key ks")
        from "2.prems" h Inr y r have e: "e \<noteq> None" by simp
        from "2.IH" h Inr y r e have "c' = c" by simp
        moreover from Inr y have "map_of d k = Some (VNode c)"
          using getattr_node by blast
        ultimately show ?thesis using h Inr y r by (simp add: rebind_same)
      next
        case False
        with h Inr show ?thesis
          by (cases y; simp; rename_tac v; case_tac v; simp)
      qed
    qed
  qed
qed

lemma remove_opaque_missing:
  "missing_opaque I ob ks \<Longrightarrow> remove_opaque I ob key ks = KeyError key"
proof (induction I ob ks rule: missing_opaque.induct)
  case (1 I ob)
  then show ?case by simp
next
  case (2 I ob k ks)
  show ?case
  proof (cases "oattr I ob k")
    case None
    then show ?thesis by simp
  next
    case (Some ob')
    with "2.prems" have m: "missing_opaque I ob' ks" by simp
    then have "ks \<noteq> []" by (cases ks) simp_all
    with "2.IH"[OF Some m] Some show ?thesis by simp
  qed
qed

lemma remove_foreign_missing:
  "missing_foreign I x ks \<Longrightarrow> remove_foreign I x key ks = KeyError key"
proof (cases ks)
  case Nil
  assume "missing_foreign I x ks"
  with Nil show ?thesis by simp
next
  case (Cons k r)
  assume m: "missing_foreign I x ks"
  show ?thesis
  proof (cases "x = TheClass")
    case True
    with m Cons show ?thesis
      by (simp add: remove_opaque_missing del: remove_opaque.simps missing_opaque.simps)
  next
    case False
    show ?thesis
    proof (cases "k \<in> set (dir_of x)")
      case True
      with m Cons False have o: "missing_opaque I (enter I x k) r" by simp
      then have "r \<noteq> []" by (cases r) simp_all
      with o Cons False True show ?thesis by (simp add: remove_opaque_missing)
    next
      case notin: False
      with Cons False show ?thesis by simp
    qed
  qed
qed

lemma remove_walk_missing:
  "missing I d ks \<Longrightarrow> remove_walk I d key ks = (Some (KeyError key), d)"
proof (induction I d ks rule: missing.induct)
  case (1 I d)
  then show ?case by simp
next
  case (2 I d k ks)
  show ?case
  proof (cases "getattr d k")
    case (Inl e)
    then show ?thesis by (simp add: hasattr_def)
  next
    case (Inr y)
    then have h: "hasattr d k" by (simp add: hasattr_def)
    show ?thesis
    proof (cases "\<exists>c. y = Val (VNode c)")
      case True
      then obtain c where y: "y = Val (VNode c)" by blast
      from "2.prems" Inr y have m: "missing I c ks" by simp
      then have ne: "ks \<noteq> []" by (cases ks) simp_all
      from Inr y have "map_of d k = Some (VNode c)" using getattr_node by blast
      moreover have "remove_walk I c key ks = (Some (KeyError key), c)"
        using "2.IH" Inr y m by blast
      ultimately show ?thesis using h ne Inr y
        by (simp add: rebind_same)
    next
      case False
      with "2.prems" Inr have mf: "missing_foreign I y ks"
        by (cases y; simp; rename_tac v; case_tac v; simp)
      then have ne: "ks \<noteq> []" by (cases ks) simp_all
      from False h Inr ne remove_foreign_missing[OF mf, of key] show ?thesis
        by (cases y; simp; rename_tac v; case_tac v; simp)
    qed
  qed
qed

lemma held_getattr:
  "k \<notin> set slots \<Longrightarrow> map_of d k = Some v \<Longrightarrow> hasattr d k \<and> getattr d k = Inr (Val v)"
  by (simp add: hasattr_def getattr_bound)

lemma remove_walk_held:
  "held d ks \<Longrightarrow> ks \<noteq> [] \<Longrightarrow> remove_walk I d key ks = (None, unbind d ks)"
proof (induction d ks rule: held.induct)
  case (1 d)
  then show ?case by simp
next
  case (2 d k)
  then show ?case by (auto simp: hasattr_iff delattr_def slots_def)
next
  case (3 d k k2 ks)
  from "3.prems" obtain c where c: "map_of d k = Some (VNode c)" and p: "held c (k2 # ks)"
    and ns: "k \<notin> set slots"
    by (auto split: option.splits val.splits)
  have "remove_walk I c key (k2 # ks) = (None, unbind c (k2 # ks))"
    using "3.IH" c p by simp
  with held_getattr[OF ns c] c show ?case by simp
qed

lemma unbind_parent:
  "held d ks \<Longrightarrow> ks \<noteq> [] \<Longrightarrow>
   \<exists>c0. attr_chain (Val (VNode d)) (butlast ks) = Some (Val (VNode c0))
      \<and> attr_chain (Val (VNode (unbind d ks))) (butlast ks)
          = Some (Val (VNode (filter (\<lambda>p. fst p \<noteq> last ks) c0)))"
proof (induction d ks rule: held.induct)
  case (1 d)
  then show ?case by simp
next
  case (2 d k)
  then show ?case by simp
next
  case (3 d k k2 ks)
  from "3.prems" obtain c where c: "map_of d k = Some (VNode c)" and p: "held c (k2 # ks)"
    and ns: "k \<notin> set slots"
    by (auto split: option.splits val.splits)
  from "3.IH" c p obtain c0 where
    "attr_chain (Val (VNode c)) (butlast (k2 # ks)) = Some (Val (VNode c0))"
    "attr_chain (Val (VNode (unbind c (k2 # ks)))) (butlast (k2 # ks))
          = Some (Val (VNode (filter (\<lambda>p. fst p \<noteq> last (k2 # ks)) c0)))"
    by auto
  then show ?case using c ns
    by (simp add: getattr_bound map_of_rebind)
qed

text \<open>
  C5, as the code has it, on a node that does not bind the name \<^verbatim>\<open>remove_item\<close>
  itself, whatever the objects of the interpreter answer. If the walk comes to a segment
  that is answered by nothing (on a node: bound neither on it nor by its class; on a
  built-in value or an object of the interpreter met on the way: not an attribute of
  it), \<^verbatim>\<open>remove_item\<close> raises \<^verbatim>\<open>KeyError\<close> carrying the whole dotted key and the tree
  is as before. If every segment is an attribute of its own of the node the segment
  before leads to, it returns normally, the last segment is gone from the node that held
  it, and that node is still reached by the segments before the last: nothing else is
  pruned.
\<close>

theorem remove_item_walk:
  assumes "\<not> shadows d ''remove_item''"
  shows "(missing I d (split_dot key) \<longrightarrow> remove_item I d key = (Some (KeyError key), d))
    \<and> (held d (split_dot key) \<longrightarrow>
         remove_item I d key = (None, unbind d (split_dot key))
         \<and> (\<exists>c0. attr_chain (Val (VNode d)) (butlast (split_dot key)) = Some (Val (VNode c0))
               \<and> attr_chain (Val (VNode (unbind d (split_dot key)))) (butlast (split_dot key))
                   = Some (Val (VNode (filter (\<lambda>p. fst p \<noteq> last (split_dot key)) c0)))))"
  using remove_walk_missing[where I = I and d = d and ks = "split_dot key" and key = key]
    remove_walk_held[where I = I and d = d and ks = "split_dot key" and key = key,
      OF _ split_dot_nonempty]
    unbind_parent[OF _ split_dot_nonempty, of d key] assms
  by (simp add: remove_item_def)

theorem remove_item_walk_witness:
  "\<not> shadows [(''a'', VNode [(''b'', VInt 1)]), (''n'', VInt 1)] ''remove_item''
   \<and> held [(''a'', VNode [(''b'', VInt 1)]), (''n'', VInt 1)] (split_dot ''a.b'')
   \<and> remove_item bare [(''a'', VNode [(''b'', VInt 1)]), (''n'', VInt 1)] ''a.b''
       = (None, [(''a'', VNode []), (''n'', VInt 1)])
   \<and> missing bare [(''a'', VNode [(''b'', VInt 1)]), (''n'', VInt 1)] (split_dot ''a.c'')
   \<and> remove_item bare [(''a'', VNode [(''b'', VInt 1)]), (''n'', VInt 1)] ''a.c''
       = (Some (KeyError ''a.c''), [(''a'', VNode [(''b'', VInt 1)]), (''n'', VInt 1)])
   \<and> missing bare [(''a'', VNode [(''b'', VInt 1)]), (''n'', VInt 1)] (split_dot ''n.b'')
   \<and> remove_item bare [(''a'', VNode [(''b'', VInt 1)]), (''n'', VInt 1)] ''n.b''
       = (Some (KeyError ''n.b''), [(''a'', VNode [(''b'', VInt 1)]), (''n'', VInt 1)])
   \<and> missing bare [(''a'', VNode [(''b'', VInt 1)]), (''n'', VInt 1)] (split_dot ''n.real.b'')
   \<and> remove_item bare [(''a'', VNode [(''b'', VInt 1)]), (''n'', VInt 1)] ''n.real.b''
       = (Some (KeyError ''n.real.b''), [(''a'', VNode [(''b'', VInt 1)]), (''n'', VInt 1)])"
proof -
  let ?d = "[(''a'', VNode [(''b'', VInt 1)]), (''n'', VInt 1)]"
  have s: "\<not> shadows ?d ''remove_item''"
    by (simp add: shadows_def keys_def)
  have h: "held ?d (split_dot ''a.b'')"
    by (simp add: slots_def keys_def)
  have m: "missing bare ?d (split_dot ''a.c'')" "missing bare ?d (split_dot ''n.b'')"
    "missing bare ?d (split_dot ''n.real.b'')"
    by (simp_all add: getattr_def class_attr_def methods_def wrappers_def builtins_def
        object_names_def int_extra_def bare_def)
  from remove_item_walk[OF s, where I = bare and key = "''a.b''"]
    remove_item_walk[OF s, where I = bare and key = "''a.c''"]
    remove_item_walk[OF s, where I = bare and key = "''n.b''"]
    remove_item_walk[OF s, where I = bare and key = "''n.real.b''"] s h m
  show ?thesis by simp
qed

text \<open>
  C5 as stated fails at each of these inputs. Neither \<^verbatim>\<open>get\<close> nor \<^verbatim>\<open>__doc__\<close> is bound
  on the empty node, and \<^verbatim>\<open>remove_item\<close> fails in \<^verbatim>\<open>delattr\<close> with
  \<^verbatim>\<open>AttributeError\<close>, not with \<^verbatim>\<open>KeyError\<close>. On a node that binds \<^verbatim>\<open>remove_item\<close> to
  the number 1, \<^verbatim>\<open>remove_item('remove_item')\<close> is a call of that number and unbinds
  nothing. On a node whose \<^verbatim>\<open>n\<close> is the number 1, every segment of \<^verbatim>\<open>n.real\<close> is
  there, and \<^verbatim>\<open>remove_item('n.real')\<close> fails in \<^verbatim>\<open>delattr\<close>; so does
  \<^verbatim>\<open>remove_item('__class__')\<close>, and \<^verbatim>\<open>remove_item('__dict__')\<close> empties the node.
\<close>

theorem remove_item_method_name_counterexample:
  "\<forall>I :: 'o interp.
   ''get'' \<notin> set (keys [])
   \<and> remove_item I [] ''get'' = (Some AttributeError, [])
   \<and> remove_item I [] ''__doc__'' = (Some AttributeError, [])
   \<and> remove_item I [(''remove_item'', VInt 1)] ''remove_item''
       = (Some TypeError, [(''remove_item'', VInt 1)])
   \<and> remove_item I [(''n'', VInt 1)] ''n.real'' = (Some AttributeError, [(''n'', VInt 1)])
   \<and> remove_item I [(''n'', VInt 1)] ''__class__'' = (Some TypeError, [(''n'', VInt 1)])
   \<and> remove_item I [(''n'', VInt 1)] ''__dict__'' = (None, [])"
  by (simp add: remove_item_def shadows_def hasattr_def getattr_def delattr_def class_attr_def
      methods_def keys_def foreign_write_def is_builtin_def object_names_def int_extra_def)

section \<open>A failed mutator leaves the tree alone\<close>

text \<open>
  C9: whenever \<^verbatim>\<open>remove_item(k)\<close> or \<^verbatim>\<open>update_item(k, v)\<close> raises, and so whenever
  it raises \<^verbatim>\<open>KeyError\<close>, the tree after the call is the tree before it, whatever the
  objects of the interpreter answer on the walk of \<^verbatim>\<open>remove_item\<close>.
\<close>

theorem keyerror_leaves_tree:
  "(\<forall>e. fst (remove_item I d k) = Some e \<and> e \<noteq> Unmodelled \<longrightarrow> snd (remove_item I d k) = d)
   \<and> (fst (update_item d k v) \<noteq> None \<longrightarrow> snd (update_item d k v) = d)"
  using remove_walk_failure_unchanged[where I = I and d = d and key = k and ks = "split_dot k"]
  by (auto simp: remove_item_def update_item_def split: sum.splits)

theorem keyerror_leaves_tree_witness:
  "fst (remove_item bare [(''a'', VNode [(''b'', VInt 1)]), (''n'', VInt 1)] ''a.c'')
     = Some (KeyError ''a.c'')
   \<and> snd (remove_item bare [(''a'', VNode [(''b'', VInt 1)]), (''n'', VInt 1)] ''a.c'')
       = [(''a'', VNode [(''b'', VInt 1)]), (''n'', VInt 1)]
   \<and> fst (remove_item bare [(''a'', VNode [(''b'', VInt 1)]), (''n'', VInt 1)] ''n.b'')
     = Some (KeyError ''n.b'')
   \<and> snd (remove_item bare [(''a'', VNode [(''b'', VInt 1)]), (''n'', VInt 1)] ''n.b'')
       = [(''a'', VNode [(''b'', VInt 1)]), (''n'', VInt 1)]
   \<and> fst (remove_item bare [(''a'', VNode [(''b'', VInt 1)]), (''n'', VInt 1)] ''n.real.b'')
     = Some (KeyError ''n.real.b'')
   \<and> snd (remove_item bare [(''a'', VNode [(''b'', VInt 1)]), (''n'', VInt 1)] ''n.real.b'')
       = [(''a'', VNode [(''b'', VInt 1)]), (''n'', VInt 1)]
   \<and> fst (update_item [(''a'', VNode [(''b'', VInt 1)]), (''n'', VInt 1)] ''a.c'' VNone)
     = Some (KeyError ''a.c'')
   \<and> snd (update_item [(''a'', VNode [(''b'', VInt 1)]), (''n'', VInt 1)] ''a.c'' VNone)
       = [(''a'', VNode [(''b'', VInt 1)]), (''n'', VInt 1)]"
proof -
  let ?d = "[(''a'', VNode [(''b'', VInt 1)]), (''n'', VInt 1)]"
  have r: "fst (remove_item bare ?d ''a.c'') = Some (KeyError ''a.c'')"
    "fst (remove_item bare ?d ''n.b'') = Some (KeyError ''n.b'')"
    "fst (remove_item bare ?d ''n.real.b'') = Some (KeyError ''n.real.b'')"
    by (simp_all add: remove_item_def shadows_def hasattr_def getattr_def keys_def class_attr_def
        methods_def wrappers_def builtins_def object_names_def int_extra_def bare_def)
  have u: "fst (update_item ?d ''a.c'' VNone) = Some (KeyError ''a.c'')"
    by (simp add: update_item_def shadows_def hasattr_def getattr_def keys_def class_attr_def
        methods_def wrappers_def builtins_def)
  from keyerror_leaves_tree[where I = bare and d = ?d and k = "''a.c''" and v = VNone]
    keyerror_leaves_tree[where I = bare and d = ?d and k = "''n.b''" and v = VNone]
    keyerror_leaves_tree[where I = bare and d = ?d and k = "''n.real.b''" and v = VNone] r u
  show ?thesis by simp
qed

section \<open>Adding a dotted key\<close>

lemma rebind_rebind: "rebind (rebind d k x) k y = rebind d k y"
  by (induction d) auto

lemma settable_setattr: "settable k v \<Longrightarrow> \<exists>d'. setattr d k v = Inr d'"
  by (auto simp: settable_def setattr_def split: if_splits val.splits)

lemma setattr_settable: "setattr d k v = Inr d' \<Longrightarrow> settable k v"
  by (auto simp: settable_def setattr_def split: if_splits val.splits)

lemma getattr_after_setattr: "setattr d k v = Inr d' \<Longrightarrow> getattr d' k = Inr (Val v)"
  by (auto simp: setattr_def getattr_def map_of_rebind split: if_splits val.splits)

lemma vivifiable_step:
  assumes "vivifiable d (k # k2 # ks)"
  shows "k \<notin> set slots"
    and "vivifiable (case getattr d k of Inr (Val (VNode c)) \<Rightarrow> c | _ \<Rightarrow> []) (k2 # ks)"
proof -
  show "k \<notin> set slots"
  proof (cases "getattr d k")
    case (Inl e)
    then show ?thesis using getattr_none by blast
  next
    case (Inr y)
    with assms obtain c where "y = Val (VNode c)"
      by (cases y; simp; rename_tac v; case_tac v; simp)
    with Inr show ?thesis using getattr_node by blast
  qed
  show "vivifiable (case getattr d k of Inr (Val (VNode c)) \<Rightarrow> c | _ \<Rightarrow> []) (k2 # ks)"
  proof (cases "getattr d k")
    case (Inl e)
    with assms show ?thesis by simp
  next
    case (Inr y)
    with assms show ?thesis
      by (cases y; simp; rename_tac v; case_tac v; simp)
  qed
qed

lemma add_walk_spec:
  "vivifiable d ks \<Longrightarrow> ks \<noteq> [] \<Longrightarrow> settable (last ks) v \<Longrightarrow>
   add_walk I d ks v = (None, bind_path d ks v)"
proof (induction d ks v rule: bind_path.induct)
  case (1 d v)
  then show ?case by simp
next
  case (2 d k v)
  then obtain d' where "setattr d k v = Inr d'"
    using settable_setattr by fastforce
  then show ?case by simp
next
  case (3 d k k2 ks v)
  let ?c = "case getattr d k of Inr (Val (VNode c)) \<Rightarrow> c | _ \<Rightarrow> []"
  from vivifiable_step[OF "3.prems"(1)] have ns: "k \<notin> set slots"
    and vc: "vivifiable ?c (k2 # ks)"
    by simp_all
  from "3.prems"(3) have st: "settable (last (k2 # ks)) v" by simp
  have ih: "add_walk I ?c (k2 # ks) v = (None, bind_path ?c (k2 # ks) v)"
    using "3.IH"[OF vc _ st] by simp
  show ?case
  proof (cases "getattr d k")
    case (Inl e)
    then have nh: "\<not> hasattr d k" by (simp add: hasattr_def)
    from ih Inl nh ns show ?thesis
      by (simp add: setattr_plain rebind_rebind)
  next
    case (Inr y)
    then have h: "hasattr d k" by (simp add: hasattr_def)
    from "3.prems"(1) Inr obtain c where y: "y = Val (VNode c)"
      by (cases y; simp; rename_tac v; case_tac v; simp)
    from ih Inr y h show ?thesis by simp
  qed
qed

text \<open>The condition is exact: otherwise \<^verbatim>\<open>add_item\<close> does not return normally.\<close>

lemma add_walk_fails:
  "ks \<noteq> [] \<Longrightarrow> \<not> (vivifiable d ks \<and> settable (last ks) v) \<Longrightarrow>
   fst (add_walk I d ks v) \<noteq> None"
proof (induction d ks v rule: bind_path.induct)
  case (1 d v)
  then show ?case by simp
next
  case (2 d k v)
  then show ?case
    using setattr_settable by (cases "setattr d k v") auto
next
  case (3 d k k2 ks v)
  show ?case
  proof (cases "getattr d k")
    case (Inl e)
    then have nh: "\<not> hasattr d k" by (simp add: hasattr_def)
    from Inl have ns: "k \<notin> set slots" using getattr_none by blast
    from "3.prems" Inl have "\<not> (vivifiable [] (k2 # ks) \<and> settable (last (k2 # ks)) v)"
      by simp
    with "3.IH" Inl have "fst (add_walk I [] (k2 # ks) v) \<noteq> None" by simp
    with nh ns show ?thesis by (auto simp: setattr_plain split: prod.splits)
  next
    case (Inr y)
    then have h: "hasattr d k" by (simp add: hasattr_def)
    show ?thesis
    proof (cases "\<exists>c. y = Val (VNode c)")
      case True
      then obtain c where y: "y = Val (VNode c)" by blast
      from "3.prems" Inr y have "\<not> (vivifiable c (k2 # ks) \<and> settable (last (k2 # ks)) v)"
        by simp
      with "3.IH" Inr y have "fst (add_walk I c (k2 # ks) v) \<noteq> None" by simp
      with h Inr y show ?thesis by (auto split: prod.splits)
    next
      case False
      with h Inr show ?thesis
        by (cases y; simp; rename_tac v; case_tac v; simp)
    qed
  qed
qed

lemma attr_chain_bind_path:
  "vivifiable d ks \<Longrightarrow> ks \<noteq> [] \<Longrightarrow> settable (last ks) v \<Longrightarrow>
   attr_chain (Val (VNode (bind_path d ks v))) ks = Some (Val v)"
proof (induction d ks v rule: bind_path.induct)
  case (1 d v)
  then show ?case by simp
next
  case (2 d k v)
  then obtain d' where "setattr d k v = Inr d'"
    using settable_setattr by fastforce
  then show ?case using getattr_after_setattr by fastforce
next
  case (3 d k k2 ks v)
  let ?c = "case getattr d k of Inr (Val (VNode c)) \<Rightarrow> c | _ \<Rightarrow> []"
  from vivifiable_step[OF "3.prems"(1)] have ns: "k \<notin> set slots"
    and vc: "vivifiable ?c (k2 # ks)"
    by simp_all
  from "3.prems"(3) have st: "settable (last (k2 # ks)) v" by simp
  have "attr_chain (Val (VNode (bind_path ?c (k2 # ks) v))) (k2 # ks) = Some (Val v)"
    using "3.IH"[OF vc _ st] by simp
  then show ?case using ns by (simp add: getattr_bound map_of_rebind)
qed

lemma bind_path_parent:
  "vivifiable d ks \<Longrightarrow> ks \<noteq> [] \<Longrightarrow> settable (last ks) v \<Longrightarrow>
   \<exists>p. attr_chain (Val (VNode (bind_path d ks v))) (butlast ks) = Some (Val (VNode p))
      \<and> getattr p (last ks) = Inr (Val v)"
proof (induction d ks v rule: bind_path.induct)
  case (1 d v)
  then show ?case by simp
next
  case (2 d k v)
  then obtain d' where "setattr d k v = Inr d'"
    using settable_setattr by fastforce
  then show ?case using getattr_after_setattr by fastforce
next
  case (3 d k k2 ks v)
  let ?c = "case getattr d k of Inr (Val (VNode c)) \<Rightarrow> c | _ \<Rightarrow> []"
  from vivifiable_step[OF "3.prems"(1)] have ns: "k \<notin> set slots"
    and vc: "vivifiable ?c (k2 # ks)"
    by simp_all
  from "3.prems"(3) have st: "settable (last (k2 # ks)) v" by simp
  from "3.IH"[OF vc _ st] obtain p where
    "attr_chain (Val (VNode (bind_path ?c (k2 # ks) v))) (butlast (k2 # ks)) = Some (Val (VNode p))"
    "getattr p (last (k2 # ks)) = Inr (Val v)"
    by auto
  then show ?case using ns by (simp add: getattr_bound map_of_rebind)
qed

text \<open>
  C4, as the code has it. Let the node not bind the name \<^verbatim>\<open>add_item\<close> itself, let
  every segment before the last, where the walk looks for it, either lead to a node or be
  answered by nothing (not by the node, not by its class), and let the last segment be
  one that \<^verbatim>\<open>setattr\<close> takes (not \<^verbatim>\<open>__class__\<close> or \<^verbatim>\<open>__weakref__\<close>, and
  \<^verbatim>\<open>__dict__\<close> only with a mapping). Then \<^verbatim>\<open>add_item(key, v)\<close> returns normally: nodes
  on the way are kept, an empty node is started for each missing segment, \<open>v\<close> is bound
  at the last segment whatever was there, and reading the same segments by attribute
  access gives \<open>v\<close>; so does \<^verbatim>\<open>get\<close> of the last segment on the node reached by the
  segments before it, when \<open>v\<close> is not a node and that node does not bind the name
  \<^verbatim>\<open>get\<close>.
\<close>

theorem add_item_binds_leaf:
  assumes "\<not> shadows d ''add_item''"
    and "vivifiable d (split_dot key)"
    and "settable (last (split_dot key)) v"
  shows "add_item I d key v = (None, bind_path d (split_dot key) v)
    \<and> attr_chain (Val (VNode (bind_path d (split_dot key) v))) (split_dot key) = Some (Val v)
    \<and> (\<exists>p. attr_chain (Val (VNode (bind_path d (split_dot key) v))) (butlast (split_dot key))
              = Some (Val (VNode p))
           \<and> (\<not> is_node v \<and> \<not> shadows p ''get'' \<longrightarrow> get p (last (split_dot key)) = Inr (Val v)))"
proof -
  note ne = split_dot_nonempty[of key]
  from bind_path_parent[OF assms(2) ne assms(3)] obtain p where
    p: "attr_chain (Val (VNode (bind_path d (split_dot key) v))) (butlast (split_dot key))
          = Some (Val (VNode p))"
      "getattr p (last (split_dot key)) = Inr (Val v)"
    by blast
  from p(2) have "\<not> is_node v \<and> \<not> shadows p ''get'' \<longrightarrow> get p (last (split_dot key)) = Inr (Val v)"
    by (simp add: get_bound_value)
  with p(1) assms(1) add_walk_spec[OF assms(2) ne assms(3)]
    attr_chain_bind_path[OF assms(2) ne assms(3)]
  show ?thesis by (auto simp: add_item_def)
qed

theorem add_item_binds_leaf_witness:
  "\<not> shadows [] ''add_item''
   \<and> \<not> shadows [(''load'', VNode [(''x'', VInt 0), (''b'', VStr ''old'')])] ''add_item''
   \<and> vivifiable [] (split_dot ''a.b.c'')
   \<and> settable (last (split_dot ''a.b.c'')) (VInt 1)
   \<and> add_item bare [] ''a.b.c'' (VInt 1)
       = (None, [(''a'', VNode [(''b'', VNode [(''c'', VInt 1)])])])
   \<and> attr_chain (Val (VNode [(''a'', VNode [(''b'', VNode [(''c'', VInt 1)])])]))
         (split_dot ''a.b.c'')
       = Some (Val (VInt 1))
   \<and> get [(''c'', VInt 1)] ''c'' = Inr (Val (VInt 1))
   \<and> vivifiable [(''load'', VNode [(''x'', VInt 0), (''b'', VStr ''old'')])] (split_dot ''load.b'')
   \<and> settable (last (split_dot ''load.b'')) (VInt 1)
   \<and> add_item bare [(''load'', VNode [(''x'', VInt 0), (''b'', VStr ''old'')])] ''load.b'' (VInt 1)
       = (None, [(''load'', VNode [(''x'', VInt 0), (''b'', VInt 1)])])"
proof -
  have s: "\<not> shadows [] ''add_item''"
    "\<not> shadows [(''load'', VNode [(''x'', VInt 0), (''b'', VStr ''old'')])] ''add_item''"
    by (simp_all add: shadows_def keys_def)
  have v: "vivifiable [] (split_dot ''a.b.c'')"
    "vivifiable [(''load'', VNode [(''x'', VInt 0), (''b'', VStr ''old'')])] (split_dot ''load.b'')"
    by (simp_all add: getattr_def class_attr_def methods_def wrappers_def builtins_def)
  have t: "settable (last (split_dot ''a.b.c'')) (VInt 1)"
    "settable (last (split_dot ''load.b'')) (VInt 1)"
    by (simp_all add: settable_def setattr_def)
  have g: "get [(''c'', VInt 1)] ''c'' = Inr (Val (VInt 1))"
    by (simp add: get_def shadows_def hasattr_def getattr_def keys_def)
  from add_item_binds_leaf[OF s(1) v(1) t(1), where I = bare]
    add_item_binds_leaf[OF s(2) v(2) t(2), where I = bare] s v t g
  show ?thesis
    by (simp add: setattr_def getattr_def class_attr_def methods_def wrappers_def builtins_def)
qed

text \<open>
  C4 as stated fails at each of these inputs. Neither \<^verbatim>\<open>get\<close> nor \<^verbatim>\<open>__doc__\<close> is
  bound on the empty root, and \<^verbatim>\<open>add_item('get.x', 1)\<close> and
  \<^verbatim>\<open>add_item('__doc__.x', 1)\<close> create no child for it: the walk goes on from the bound
  method, or from \<^verbatim>\<open>None\<close>, the write there raises, and reading the segments afterwards
  does not give 1. On a node whose \<^verbatim>\<open>a\<close> is the number 1, \<^verbatim>\<open>add_item('a.b', 2)\<close>
  raises and binds nothing. \<^verbatim>\<open>add_item\<close> of 1 under \<^verbatim>\<open>__class__\<close>,
  \<^verbatim>\<open>__weakref__\<close> or \<^verbatim>\<open>__dict__\<close> raises in \<^verbatim>\<open>setattr\<close>. And on
  a node that binds \<^verbatim>\<open>add_item\<close> to the number 1, \<^verbatim>\<open>add_item('k', 2)\<close> is a call of
  that number.
\<close>

theorem add_item_method_name_counterexample:
  "\<forall>I :: 'o interp.
   ''get'' \<notin> set (keys [])
   \<and> add_item I [] ''get.x'' (VInt 1) = (Some AttributeError, [])
   \<and> attr_chain (Val (VNode (snd (add_item I [] ''get.x'' (VInt 1))))) (split_dot ''get.x'')
       \<noteq> Some (Val (VInt 1))
   \<and> add_item I [] ''__doc__.x'' (VInt 1) = (Some AttributeError, [])
   \<and> add_item I [(''a'', VInt 1)] ''a.b'' (VInt 2) = (Some AttributeError, [(''a'', VInt 1)])
   \<and> add_item I [] ''__class__'' (VInt 1) = (Some TypeError, [])
   \<and> add_item I [] ''__weakref__'' (VInt 1) = (Some AttributeError, [])
   \<and> add_item I [] ''__dict__'' (VInt 1) = (Some TypeError, [])
   \<and> add_item I [(''add_item'', VInt 1)] ''k'' (VInt 2)
       = (Some TypeError, [(''add_item'', VInt 1)])"
  by (simp add: add_item_def shadows_def hasattr_def getattr_def setattr_def class_attr_def
      methods_def keys_def foreign_write_def is_builtin_def object_names_def method_extra_def
      none_extra_def int_extra_def)

section \<open>Adding a mapping as a value\<close>









section \<open>The origin path\<close>


















lemma setattr_slot_fails:
  "k \<in> set slots \<Longrightarrow> (\<forall>m. v \<noteq> VDict m) \<Longrightarrow> \<exists>e. setattr d k v = Inl e"
  by (cases v) (auto simp: setattr_def slots_def)

lemma init_items_fails:
  "\<not> node_tables (\<lambda>k v. k \<notin> set slots) items \<Longrightarrow> \<exists>e. init_items acc items = Inl e"
proof (induction acc items rule: init_items.induct)
  case (1 acc)
  then show ?case by simp
next
  case (2 acc k v rest)
  let ?step = "case v of
              VDict m \<Rightarrow>
                (case init_items [] m of
                   Inl e \<Rightarrow> Inl e
                 | Inr c \<Rightarrow> setattr acc k (VNode c))
            | _ \<Rightarrow> setattr acc k v"
  show ?case
  proof (cases ?step)
    case (Inl e)
    then show ?thesis by simp
  next
    case (Inr acc')
    have ks: "k \<notin> set slots"
    proof
      assume k: "k \<in> set slots"
      show False
      proof (cases v)
        case (VDict m)
        with Inr obtain c where "setattr acc k (VNode c) = Inr acc'"
          by (auto split: sum.splits)
        with setattr_slot_fails[OF k, of "VNode c" acc] show False by auto
      qed (use Inr setattr_slot_fails[OF k, of v acc] in auto)
    qed
    have sub: "case v of VDict m \<Rightarrow> node_tables (\<lambda>k v. k \<notin> set slots) m | _ \<Rightarrow> True"
    proof (cases v)
      case (VDict m)
      with Inr obtain c where "init_items [] m = Inr c"
        by (auto split: sum.splits)
      with "2.IH"(1)[OF VDict] VDict show ?thesis by auto
    qed simp_all
    from "2.prems" ks sub have "\<not> node_tables (\<lambda>k v. k \<notin> set slots) rest"
      by (cases v) auto
    from "2.IH"(2)[OF Inr this] Inr show ?thesis by simp
  qed
qed


lemma construct_plain:
  "plain_mapping M \<Longrightarrow> settable_tables M \<Longrightarrow> construct M None = Inr (node_of M)"
  unfolding settable_tables_def by (rule construct_node_of)

lemma construct_with_filename:
  "p \<noteq> [] \<Longrightarrow> construct M None = Inr n \<Longrightarrow>
   construct M (Some p) = Inr (rebind n file_key (VStr p))"
  by (auto simp: construct_def setattr_def file_key_def split: sum.splits)

lemma construct_fails_with_filename:
  "construct M None = Inl e \<Longrightarrow> construct M (Some p) = Inl e"
  by (auto simp: construct_def split: sum.splits)

lemma open_append_path: "open_append fs p = Inr fs1 \<Longrightarrow> p \<noteq> []"
  by (auto simp: open_append_def split: if_splits)

lemma load_result:
  "open_append fs p = Inr fs1 \<Longrightarrow> read_text fs1 p = Inr t \<Longrightarrow>
   load loads fs p =
     (case loads t of Inl e \<Rightarrow> (Inl e, fs1) | Inr M \<Rightarrow> (construct M (Some p), fs1))"
  by (simp add: load_def split: sum.splits)




section \<open>Loading\<close>

lemma open_append_contents:
  "open_append fs p = Inr fs1 \<Longrightarrow>
   contents fs1 = (case contents fs p of None \<Rightarrow> (contents fs)(p \<mapsto> []) | Some x \<Rightarrow> contents fs)
   \<and> writable fs1 = writable fs \<and> readable fs1 = readable fs"
  by (auto simp: open_append_def split: if_splits option.splits)

lemma read_after_open:
  "open_append fs p = Inr fs1 \<Longrightarrow> read_text fs1 p = Inr t \<Longrightarrow>
   t = (case contents fs p of None \<Rightarrow> [] | Some x \<Rightarrow> x)"
  by (auto simp: open_append_def read_text_def split: if_splits option.splits)

lemma construct_refused:
  "\<not> settable_tables M \<Longrightarrow> \<exists>e. construct M fn = Inl e"
  using init_items_fails[of M "[]"]
  by (auto simp: construct_def settable_tables_def)

text \<open>
  C8, as the code has it. \<^verbatim>\<open>load(p)\<close> opens the file for appending and then for
  reading, and fails with the error of the operating system when either is refused, and
  with the decoding error when the bytes of the file are not text. Otherwise the file is there afterwards, created empty when it was absent and left as it
  was when not, and its text goes to the TOML codec. When the codec raises, \<^verbatim>\<open>load\<close>
  fails with that error unchanged. When it returns a mapping, \<^verbatim>\<open>load\<close> is the
  constructor on that mapping and \<open>p\<close>: for a plain mapping in which no table that
  becomes a node has the key \<^verbatim>\<open>__class__\<close>, \<^verbatim>\<open>__dict__\<close> or \<^verbatim>\<open>__weakref__\<close> it returns
  the node tree of the mapping with \<^verbatim>\<open>__file__\<close> bound to \<open>p\<close>, and with such a key
  the \<^verbatim>\<open>setattr\<close> of the constructor raises and \<^verbatim>\<open>load\<close> fails.
\<close>

theorem load_contract:
  "(\<forall>e. open_append fs p = Inl e \<longrightarrow> load loads fs p = (Inl e, fs))
   \<and> (\<forall>fs1 e. open_append fs p = Inr fs1 \<and> read_text fs1 p = Inl e \<longrightarrow>
         load loads fs p = (Inl e, fs1))
   \<and> (\<forall>fs1 t. open_append fs p = Inr fs1 \<and> read_text fs1 p = Inr t \<longrightarrow>
         snd (load loads fs p) = fs1
         \<and> contents fs1
             = (case contents fs p of None \<Rightarrow> (contents fs)(p \<mapsto> []) | Some x \<Rightarrow> contents fs)
         \<and> t = (case contents fs p of None \<Rightarrow> [] | Some x \<Rightarrow> x)
         \<and> (\<forall>e. loads t = Inl e \<longrightarrow> fst (load loads fs p) = Inl e)
         \<and> (\<forall>M. loads t = Inr M \<longrightarrow> fst (load loads fs p) = construct M (Some p))
         \<and> (\<forall>M. loads t = Inr M \<and> plain_mapping M \<and> settable_tables M \<longrightarrow>
               fst (load loads fs p) = Inr (rebind (node_of M) file_key (VStr p)))
         \<and> (\<forall>M. loads t = Inr M \<and> \<not> settable_tables M \<longrightarrow>
               (\<exists>e. fst (load loads fs p) = Inl e)))"
proof (intro conjI allI impI)
  fix e
  assume "open_append fs p = Inl e"
  then show "load loads fs p = (Inl e, fs)" by (simp add: load_def)
next
  fix fs1 e
  assume "open_append fs p = Inr fs1 \<and> read_text fs1 p = Inl e"
  then show "load loads fs p = (Inl e, fs1)" by (simp add: load_def)
next
  fix fs1 t
  assume h: "open_append fs p = Inr fs1 \<and> read_text fs1 p = Inr t"
  then have r: "load loads fs p =
     (case loads t of Inl e \<Rightarrow> (Inl e, fs1) | Inr M \<Rightarrow> (construct M (Some p), fs1))"
    using load_result[of fs p fs1 t loads] by simp
  show "snd (load loads fs p) = fs1"
    by (simp add: r split: sum.splits)
  show "contents fs1
      = (case contents fs p of None \<Rightarrow> (contents fs)(p \<mapsto> []) | Some x \<Rightarrow> contents fs)"
    using h open_append_contents by blast
  show "t = (case contents fs p of None \<Rightarrow> [] | Some x \<Rightarrow> x)"
    using h read_after_open by blast
  {
    fix e
    assume "loads t = Inl e"
    then show "fst (load loads fs p) = Inl e" by (simp add: r)
  }
  {
    fix M
    assume "loads t = Inr M"
    then show "fst (load loads fs p) = construct M (Some p)" by (simp add: r)
  }
  {
    fix M
    assume m: "loads t = Inr M \<and> plain_mapping M \<and> settable_tables M"
    from h have ne: "p \<noteq> []" using open_append_path by blast
    from m have "construct M None = Inr (node_of M)" by (simp add: construct_plain)
    from construct_with_filename[OF ne this] m
    show "fst (load loads fs p) = Inr (rebind (node_of M) file_key (VStr p))"
      by (simp add: r)
  }
  {
    fix M
    assume m: "loads t = Inr M \<and> \<not> settable_tables M"
    then obtain e where "construct M (Some p) = Inl e"
      using construct_refused by blast
    with m show "\<exists>e. fst (load loads fs p) = Inl e" by (simp add: r)
  }
qed

theorem load_contract_witness:
  "open_append \<lparr>contents = [''c.toml'' \<mapsto> ''t''], writable = {''c.toml'', ''n.toml''},
                 readable = {''c.toml'', ''n.toml''}, undecodable = {}\<rparr> ''c.toml''
     = Inr \<lparr>contents = [''c.toml'' \<mapsto> ''t''], writable = {''c.toml'', ''n.toml''},
            readable = {''c.toml'', ''n.toml''}, undecodable = {}\<rparr>
   \<and> read_text \<lparr>contents = [''c.toml'' \<mapsto> ''t''], writable = {''c.toml'', ''n.toml''},
                 readable = {''c.toml'', ''n.toml''}, undecodable = {}\<rparr> ''c.toml'' = Inr ''t''
   \<and> plain_mapping [(''data'', VDict [(''key'', VInt 1), (''sub'', VDict [(''x'', VStr ''y'')])]),
                     (''n'', VInt 2)]
   \<and> settable_tables [(''data'', VDict [(''key'', VInt 1), (''sub'', VDict [(''x'', VStr ''y'')])]),
                       (''n'', VInt 2)]
   \<and> load (\<lambda>t. if t = [] then Inr []
                else Inr [(''data'', VDict [(''key'', VInt 1), (''sub'', VDict [(''x'', VStr ''y'')])]),
                          (''n'', VInt 2)])
        \<lparr>contents = [''c.toml'' \<mapsto> ''t''], writable = {''c.toml'', ''n.toml''},
          readable = {''c.toml'', ''n.toml''}, undecodable = {}\<rparr> ''c.toml''
     = (Inr [(''data'', VNode [(''key'', VInt 1), (''sub'', VNode [(''x'', VStr ''y'')])]),
             (''n'', VInt 2), (''__file__'', VStr ''c.toml'')],
        \<lparr>contents = [''c.toml'' \<mapsto> ''t''], writable = {''c.toml'', ''n.toml''},
          readable = {''c.toml'', ''n.toml''}, undecodable = {}\<rparr>)
   \<and> fst (load (\<lambda>t. if t = [] then Inr []
                else Inr [(''data'', VDict [(''key'', VInt 1), (''sub'', VDict [(''x'', VStr ''y'')])]),
                          (''n'', VInt 2)])
        \<lparr>contents = [''c.toml'' \<mapsto> ''t''], writable = {''c.toml'', ''n.toml''},
          readable = {''c.toml'', ''n.toml''}, undecodable = {}\<rparr> ''n.toml'')
     = Inr [(''__file__'', VStr ''n.toml'')]
   \<and> contents (snd (load (\<lambda>t. if t = [] then Inr []
                else Inr [(''data'', VDict [(''key'', VInt 1), (''sub'', VDict [(''x'', VStr ''y'')])]),
                          (''n'', VInt 2)])
        \<lparr>contents = [''c.toml'' \<mapsto> ''t''], writable = {''c.toml'', ''n.toml''},
          readable = {''c.toml'', ''n.toml''}, undecodable = {}\<rparr> ''n.toml''))
     = [''c.toml'' \<mapsto> ''t'', ''n.toml'' \<mapsto> []]"
proof -
  let ?fs = "\<lparr>contents = [''c.toml'' \<mapsto> ''t''], writable = {''c.toml'', ''n.toml''},
                 readable = {''c.toml'', ''n.toml''}, undecodable = {}\<rparr>"
  let ?fs2 = "\<lparr>contents = [''c.toml'' \<mapsto> ''t'', ''n.toml'' \<mapsto> []],
                writable = {''c.toml'', ''n.toml''}, readable = {''c.toml'', ''n.toml''}, undecodable = {}\<rparr>"
  let ?M = "[(''data'', VDict [(''key'', VInt 1), (''sub'', VDict [(''x'', VStr ''y'')])]),
             (''n'', VInt 2)]"
  let ?loads = "\<lambda>t::string. if t = [] then Inr [] else (Inr ?M :: error + dict)"
  have oa: "open_append ?fs ''c.toml'' = Inr ?fs" by (simp add: open_append_def)
  have rt: "read_text ?fs ''c.toml'' = Inr ''t''" by (simp add: read_text_def)
  have oa2: "open_append ?fs ''n.toml'' = Inr ?fs2" by (simp add: open_append_def)
  have rt2: "read_text ?fs2 ''n.toml'' = Inr []" by (simp add: read_text_def)
  have pm: "plain_mapping ?M" by (simp add: plain_mapping_def)
  have st: "settable_tables ?M" by (simp add: settable_tables_def slots_def)
  have pm0: "plain_mapping []" "settable_tables []"
    by (simp_all add: plain_mapping_def settable_tables_def)
  have lt: "?loads ''t'' = Inr ?M" "?loads [] = Inr []" by simp_all
  note c1 = load_contract[where fs = ?fs and p = "''c.toml''" and loads = ?loads,
      THEN conjunct2, THEN conjunct2, rule_format, OF conjI[OF oa rt]]
  from c1[THEN conjunct2, THEN conjunct2, THEN conjunct2, THEN conjunct2, THEN conjunct2,
      THEN conjunct1, rule_format, of ?M] lt(1) pm st
  have f1: "fst (load ?loads ?fs ''c.toml'') = Inr (rebind (node_of ?M) file_key (VStr ''c.toml''))"
    by blast
  from c1[THEN conjunct1] have s1: "snd (load ?loads ?fs ''c.toml'') = ?fs" .
  from f1 s1 have 1: "load ?loads ?fs ''c.toml''
      = (Inr (rebind (node_of ?M) file_key (VStr ''c.toml'')), ?fs)"
    by (simp add: prod_eq_iff)
  note c2 = load_contract[where fs = ?fs and p = "''n.toml''" and loads = ?loads,
      THEN conjunct2, THEN conjunct2, rule_format, OF conjI[OF oa2 rt2]]
  from c2[THEN conjunct2, THEN conjunct2, THEN conjunct2, THEN conjunct2, THEN conjunct2,
      THEN conjunct1, rule_format, of "[]"] lt(2) pm0
  have f2: "fst (load ?loads ?fs ''n.toml'') = Inr (rebind (node_of []) file_key (VStr ''n.toml''))"
    by blast
  from c2[THEN conjunct1] have s2: "snd (load ?loads ?fs ''n.toml'') = ?fs2" .
  from f2 s2 have 2: "load ?loads ?fs ''n.toml''
      = (Inr (rebind (node_of []) file_key (VStr ''n.toml'')), ?fs2)"
    by (simp add: prod_eq_iff)
  from 1 2 oa rt pm st show ?thesis by (simp add: file_key_def)
qed

text \<open>
  C8 as stated fails at each of these inputs. The text of \<^verbatim>\<open>c.toml\<close> is valid TOML for
  the codec, which returns \<^verbatim>\<open>{'__class__': 1}\<close>, and \<^verbatim>\<open>load\<close> fails in the constructor
  with \<^verbatim>\<open>TypeError\<close>. At a path with no file that cannot be opened for appending
  (its directory is missing), \<^verbatim>\<open>load\<close> fails and creates nothing. And on a file whose
  bytes are not text, \<^verbatim>\<open>load\<close> fails with the decoding error before the codec is
  asked.
\<close>

theorem load_constructor_counterexample:
  "load (\<lambda>t. Inr [(''__class__'', VInt 1)])
      \<lparr>contents = [''c.toml'' \<mapsto> ''__class__ = 1''], writable = {''c.toml''},
        readable = {''c.toml''}, undecodable = {}\<rparr> ''c.toml''
     = (Inl TypeError,
        \<lparr>contents = [''c.toml'' \<mapsto> ''__class__ = 1''], writable = {''c.toml''},
          readable = {''c.toml''}, undecodable = {}\<rparr>)
   \<and> load (\<lambda>t. Inr [])
      \<lparr>contents = Map.empty, writable = {}, readable = {}, undecodable = {}\<rparr> ''nodir/c.toml''
     = (Inl OSError, \<lparr>contents = Map.empty, writable = {}, readable = {}, undecodable = {}\<rparr>)
   \<and> load (\<lambda>t. Inr [])
      \<lparr>contents = [''c.toml'' \<mapsto> ''?''], writable = {''c.toml''},
        readable = {''c.toml''}, undecodable = {''c.toml''}\<rparr> ''c.toml''
     = (Inl UnicodeDecodeError,
        \<lparr>contents = [''c.toml'' \<mapsto> ''?''], writable = {''c.toml''},
          readable = {''c.toml''}, undecodable = {''c.toml''}\<rparr>)"
  by (simp add: load_def open_append_def read_text_def construct_def setattr_def)

end
